theory Spec2Isabelle
  imports Main "HOL-Library.Sublist"
begin

section \<open>APR and httpd types used by the input filter\<close>

text \<open>
  \<^verbatim>\<open>apr_status_t\<close> is a C \<^verbatim>\<open>int\<close>. The constants come from \<^verbatim>\<open>apr_errno.h\<close>
  (their values on Linux); the filter only ever compares a status with
  \<^verbatim>\<open>APR_SUCCESS\<close> and passes the others on.
\<close>

type_synonym apr_status_t = int

definition APR_SUCCESS :: apr_status_t where
  "APR_SUCCESS = 0"

definition APR_EGENERAL :: apr_status_t where
  "APR_EGENERAL = 20014"

definition APR_ECONNABORTED :: apr_status_t where
  "APR_ECONNABORTED = 103"

definition APR_EAGAIN :: apr_status_t where
  "APR_EAGAIN = 11"

definition APR_EOF :: apr_status_t where
  "APR_EOF = 70014"

text \<open>
  A bucket brigade is the sequence of its buckets: data buckets and the end-of-stream
  bucket made by \<^verbatim>\<open>apr_bucket_eos_create\<close>. \<^verbatim>\<open>APR_BRIGADE_INSERT_TAIL\<close> appends.
\<close>

datatype apr_bucket = DATA string | EOS

type_synonym apr_bucket_brigade = "apr_bucket list"

datatype ap_input_mode_t =
  AP_MODE_READBYTES | AP_MODE_GETLINE | AP_MODE_EATCRLF
  | AP_MODE_SPECULATIVE | AP_MODE_EXHAUSTIVE | AP_MODE_INIT

datatype apr_read_type_e = APR_BLOCK_READ | APR_NONBLOCK_READ

type_synonym apr_off_t = int

section \<open>HttpStreamAccumulator\<close>

text \<open>
  Modelled from the spec: the class \<^verbatim>\<open>HttpStreamAccumulator\<close>
  (\<^verbatim>\<open>http_stream_accumulator.h\<close>) is not among the sources. The factory uses its
  three queries \<^verbatim>\<open>IsEmpty\<close>, \<^verbatim>\<open>IsComplete\<close>, \<^verbatim>\<open>HasError\<close> and its \<^verbatim>\<open>Read\<close>.
  The state is the one the spec gives an accumulator (section 3): the buffered
  bytes, whether the stream is complete, and whether it is errored.
\<close>

record HttpStreamAccumulator =
  buffer :: string
  is_complete :: bool
  has_error :: bool

definition Accumulator_IsEmpty :: "HttpStreamAccumulator \<Rightarrow> bool" where
  "Accumulator_IsEmpty a = (buffer a = [])"

definition Accumulator_IsComplete :: "HttpStreamAccumulator \<Rightarrow> bool" where
  "Accumulator_IsComplete a = is_complete a"

definition Accumulator_HasError :: "HttpStreamAccumulator \<Rightarrow> bool" where
  "Accumulator_HasError a = has_error a"

text \<open>
  Modelled from the spec: the constructor of \<^verbatim>\<open>HttpStreamAccumulator\<close> is not among
  the sources. A new accumulator holds no bytes and is neither complete nor errored.
\<close>

definition new_HttpStreamAccumulator :: HttpStreamAccumulator where
  "new_HttpStreamAccumulator = \<lparr>buffer = [], is_complete = False, has_error = False\<rparr>"

text \<open>
  \<^verbatim>\<open>HttpStreamAccumulator::Read(brigade, mode, block, readbytes)\<close> is a parameter of
  the model: a function from the accumulator and the caller's brigade to the status,
  the accumulator after the call and the brigade after the call. Every theorem about
  the factory below holds for every such function.
\<close>

type_synonym accumulator_read =
  "HttpStreamAccumulator \<Rightarrow> apr_bucket_brigade \<Rightarrow> ap_input_mode_t \<Rightarrow> apr_read_type_e
     \<Rightarrow> apr_off_t \<Rightarrow> apr_status_t \<times> HttpStreamAccumulator \<times> apr_bucket_brigade"

text \<open>
  Modelled from the spec: \<^verbatim>\<open>HttpStreamAccumulator::Read\<close> is not among the sources.
  Section 4.4 gives \<^verbatim>\<open>read(maxBytes, blockingMode) -> bytes | wouldBlock | eof\<close> on a
  passive buffer. This instance is used where a theorem is run on a concrete input.
\<close>

definition Accumulator_Read_spec :: accumulator_read where
  "Accumulator_Read_spec a brigade mode block readbytes =
     (if buffer a = [] then
        (if is_complete a then APR_EOF else APR_EAGAIN, a, brigade)
      else
        (APR_SUCCESS,
         a\<lparr>buffer := drop (nat readbytes) (buffer a)\<rparr>,
         brigade @ [DATA (take (nat readbytes) (buffer a))]))"

section \<open>SpdyToHttpConverterFactory\<close>

text \<open>
  \<^verbatim>\<open>queue_\<close> is a \<^verbatim>\<open>std::queue<HttpStreamAccumulator*>\<close>. An entry of the model is
  the pointer together with the object it points to: the queue is the part of the
  heap the factory owns, in queue order, front first. The other members
  (\<^verbatim>\<open>framer_\<close>, \<^verbatim>\<open>pool_\<close>, \<^verbatim>\<open>bucket_alloc_\<close>) are const pointers, so the methods are
  functions of \<^verbatim>\<open>queue_\<close>; those that clean the queue up return the new queue too.
\<close>

type_synonym pointer = nat

type_synonym AccumulatorQueue = "(pointer \<times> HttpStreamAccumulator) list"

record SpdyToHttpConverter =
  converter_framer :: pointer
  converter_accumulator :: pointer

text \<open>
  A null pointer dereference is a fault of the model. A failed \<^verbatim>\<open>DCHECK\<close> aborts a
  debug build and is compiled out of a release build: the model goes on as the release
  build does and returns the list of the \<^verbatim>\<open>DCHECK\<close>s that failed on the way.
\<close>

datatype fault = NULL_dereference

datatype dcheck = DCHECK_false | DCHECK_input_IsEmpty

text \<open>
  \<^verbatim>\<open>Create\<close> (lines 93-99). \<^verbatim>\<open>p\<close> is the address \<^verbatim>\<open>new HttpStreamAccumulator\<close>
  returned and \<^verbatim>\<open>framer\<close> the member \<^verbatim>\<open>framer_\<close>. The stream id is not used.
\<close>

definition Create ::
  "pointer \<Rightarrow> pointer \<Rightarrow> AccumulatorQueue \<Rightarrow> nat \<Rightarrow> SpdyToHttpConverter \<times> AccumulatorQueue" where
  "Create framer p queue stream_id =
     (\<lparr>converter_framer = framer, converter_accumulator = p\<rparr>,
      queue @ [(p, new_HttpStreamAccumulator)])"

text \<open>
  \<^verbatim>\<open>RemoveEmptyAccumulators\<close> (lines 152-163): the loop pops from the front; the
  accumulator popped is deleted, so the object goes with its entry.
\<close>

fun RemoveEmptyAccumulators :: "AccumulatorQueue \<Rightarrow> AccumulatorQueue" where
  "RemoveEmptyAccumulators [] = []"
| "RemoveEmptyAccumulators ((p, accumulator) # queue) =
     (if Accumulator_IsComplete accumulator \<and>
         (Accumulator_HasError accumulator \<or> Accumulator_IsEmpty accumulator)
      then RemoveEmptyAccumulators queue
      else (p, accumulator) # queue)"

text \<open>\<^verbatim>\<open>GetAccumulator\<close> (lines 165-172); \<^verbatim>\<open>None\<close> is the \<^verbatim>\<open>NULL\<close> it returns.\<close>

definition GetAccumulator ::
  "AccumulatorQueue \<Rightarrow> (pointer \<times> HttpStreamAccumulator) option \<times> AccumulatorQueue" where
  "GetAccumulator queue =
     (case RemoveEmptyAccumulators queue of
        [] \<Rightarrow> (None, [])
      | front # rest \<Rightarrow> (Some front, front # rest))"

text \<open>\<^verbatim>\<open>IsDataAvailable\<close> (lines 101-109).\<close>

definition Factory_IsDataAvailable :: "AccumulatorQueue \<Rightarrow> bool \<times> AccumulatorQueue" where
  "Factory_IsDataAvailable queue =
     (case GetAccumulator queue of
        (None, queue') \<Rightarrow> (False, queue')
      | (Some (p, accumulator), queue') \<Rightarrow>
          (if Accumulator_HasError accumulator \<or> Accumulator_IsEmpty accumulator
           then False else True, queue'))"

text \<open>\<^verbatim>\<open>HasError\<close> (lines 111-117).\<close>

definition Factory_HasError :: "AccumulatorQueue \<Rightarrow> bool \<times> AccumulatorQueue" where
  "Factory_HasError queue =
     (case GetAccumulator queue of
        (None, queue') \<Rightarrow> (False, queue')
      | (Some (p, accumulator), queue') \<Rightarrow> (Accumulator_HasError accumulator, queue'))"

text \<open>
  \<^verbatim>\<open>Read\<close> (lines 119-138). The accumulator read is the object the front pointer
  points to, so the call changes the front entry in place; the cleanup follows.
\<close>

definition Factory_Read ::
  "accumulator_read \<Rightarrow> AccumulatorQueue \<Rightarrow> apr_bucket_brigade \<Rightarrow> ap_input_mode_t
     \<Rightarrow> apr_read_type_e \<Rightarrow> apr_off_t
     \<Rightarrow> fault + (apr_status_t \<times> AccumulatorQueue \<times> apr_bucket_brigade \<times> dcheck list)" where
  "Factory_Read Accumulator_Read queue brigade mode block readbytes =
     (case Factory_HasError queue of (error, queue1) \<Rightarrow>
        if error then Inr (APR_EGENERAL, queue1, brigade, [DCHECK_false])
        else
          (case Factory_IsDataAvailable queue1 of (available, queue2) \<Rightarrow>
             if \<not> available then Inr (APR_SUCCESS, queue2, brigade, [])
             else
               (case GetAccumulator queue2 of
                  (None, queue3) \<Rightarrow> Inl NULL_dereference
                | (Some (p, accumulator), queue3) \<Rightarrow>
                    (case Accumulator_Read accumulator brigade mode block readbytes of
                       (rv, accumulator', brigade') \<Rightarrow>
                         Inr (rv, RemoveEmptyAccumulators ((p, accumulator') # tl queue3),
                              brigade', [])))))"

section \<open>SpdyInputFilter\<close>

text \<open>
  The connection as the filter sees it: the NPN state of the \<^verbatim>\<open>ConnectionContext\<close>,
  \<^verbatim>\<open>filter->c->aborted\<close>, and the state of everything else a call can reach (the
  filters after this one, \<^verbatim>\<open>filter->next\<close>, and the framer), which is a type
  parameter. \<^verbatim>\<open>ap_get_brigade(filter->next, ...)\<close> is a parameter of the model; it
  acts on the connection, and so may run the NPN callback that sets the NPN state, but
  it cannot reach the members of the filter.
\<close>

datatype npn_state_t = NOT_DONE_YET | USING_SPDY | NOT_USING_SPDY

record 'w conn_rec =
  npn_state :: npn_state_t
  aborted :: bool
  next_filter :: 'w

type_synonym 'w get_brigade =
  "'w conn_rec \<Rightarrow> apr_bucket_brigade \<Rightarrow> ap_input_mode_t \<Rightarrow> apr_read_type_e \<Rightarrow> apr_off_t
     \<Rightarrow> apr_status_t \<times> apr_bucket_brigade \<times> 'w conn_rec"

text \<open>
  Modelled from the spec: the class \<^verbatim>\<open>InputFilterInputStream\<close> is not among the
  sources. The filter sets and clears the filter it reads from (with the blocking
  mode of the call), asks whether it is empty, and reads the status of its last read
  from the next filter.
\<close>

record InputFilterInputStream =
  filter_block :: "apr_read_type_e option"
  next_filter_rv :: apr_status_t
  is_empty :: bool

definition set_filter :: "apr_read_type_e \<Rightarrow> InputFilterInputStream \<Rightarrow> InputFilterInputStream" where
  "set_filter block i = i\<lparr>filter_block := Some block\<rparr>"

definition clear_filter :: "InputFilterInputStream \<Rightarrow> InputFilterInputStream" where
  "clear_filter i = i\<lparr>filter_block := None\<rparr>"

record 'w SpdyInputFilter =
  input :: InputFilterInputStream
  factory :: AccumulatorQueue
  temp_brigade :: apr_bucket_brigade
  conn :: "'w conn_rec"

text \<open>
  \<^verbatim>\<open>SpdyFramePump::PumpOneFrame\<close> is a parameter of the model: it reads through
  \<^verbatim>\<open>input_\<close>, and the framer's callbacks create accumulators and write to them, so it
  is a function from the state of the filter to its result and the new state.
\<close>

type_synonym 'w pump = "'w SpdyInputFilter \<Rightarrow> bool \<times> 'w SpdyInputFilter"

text \<open>
  The loop of lines 239-248. It runs as long as the pump reports progress and the
  factory has neither an error nor data, so it need not end: \<^verbatim>\<open>None\<close> is a run
  that never leaves the loop.
\<close>

partial_function (option) pump_loop ::
  "'w pump \<Rightarrow> 'w SpdyInputFilter \<Rightarrow> 'w SpdyInputFilter option" where
  "pump_loop PumpOneFrame s =
     (case Factory_HasError (factory s) of (error, queue1) \<Rightarrow>
        if error then Some (s\<lparr>factory := queue1\<rparr>)
        else
          (case Factory_IsDataAvailable queue1 of (available, queue2) \<Rightarrow>
             if available then Some (s\<lparr>factory := queue2\<rparr>)
             else
               (case PumpOneFrame (s\<lparr>factory := queue2\<rparr>) of (progress, s') \<Rightarrow>
                  if \<not> progress then Some s' else pump_loop PumpOneFrame s')))"

text \<open>
  Lines 197-216 of \<^verbatim>\<open>SpdyInputFilter::Read\<close>: while NPN is not done, a speculative
  blocking read of one byte into \<^verbatim>\<open>temp_brigade_\<close>, which is cleaned up at once.
  \<^verbatim>\<open>Some rv\<close> is the early return of line 207.
\<close>

definition npn_detection ::
  "'w get_brigade \<Rightarrow> 'w SpdyInputFilter \<Rightarrow> apr_status_t option \<times> 'w SpdyInputFilter" where
  "npn_detection ap_get_brigade s =
     (if npn_state (conn s) = NOT_DONE_YET then
        (case ap_get_brigade (conn s) (temp_brigade s) AP_MODE_SPECULATIVE APR_BLOCK_READ 1 of
           (rv, temp, c) \<Rightarrow>
             if rv \<noteq> APR_SUCCESS then (Some rv, s\<lparr>temp_brigade := [], conn := c\<rparr>)
             else if npn_state c = NOT_DONE_YET then
               (None, s\<lparr>temp_brigade := [], conn := c\<lparr>npn_state := NOT_USING_SPDY\<rparr>\<rparr>)
             else (None, s\<lparr>temp_brigade := [], conn := c\<rparr>))
      else (None, s))"

text \<open>
  Lines 251-269: the error path of the filter, the read delegated to the factory and
  the status returned once the buffers are drained. \<^verbatim>\<open>IsDataAvailable\<close> is only
  called when the factory's read succeeded.
\<close>

definition Read_from_factory ::
  "accumulator_read \<Rightarrow> 'w SpdyInputFilter \<Rightarrow> apr_bucket_brigade \<Rightarrow> ap_input_mode_t
     \<Rightarrow> apr_read_type_e \<Rightarrow> apr_off_t
     \<Rightarrow> fault + (apr_status_t \<times> apr_bucket_brigade \<times> 'w SpdyInputFilter \<times> dcheck list)" where
  "Read_from_factory Accumulator_Read s brigade mode block readbytes =
     (case Factory_HasError (factory s) of (error, queue1) \<Rightarrow>
        if error then Inr (APR_EGENERAL, brigade @ [EOS], s\<lparr>factory := queue1\<rparr>, [])
        else
          (case Factory_Read Accumulator_Read queue1 brigade mode block readbytes of
             Inl f \<Rightarrow> Inl f
           | Inr (rv, queue2, brigade', dchecks) \<Rightarrow>
               if rv = APR_SUCCESS then
                 (case Factory_IsDataAvailable queue2 of (available, queue3) \<Rightarrow>
                    if \<not> available then
                      Inr (next_filter_rv (input s), brigade', s\<lparr>factory := queue3\<rparr>,
                           dchecks @ (if is_empty (input s) then [] else [DCHECK_input_IsEmpty]))
                    else Inr (rv, brigade', s\<lparr>factory := queue3\<rparr>, dchecks))
               else Inr (rv, brigade', s\<lparr>factory := queue2\<rparr>, dchecks)))"

text \<open>
  \<^verbatim>\<open>SpdyInputFilter::Read\<close> (lines 192-270). The result is \<^verbatim>\<open>None\<close> when the pump
  loop never ends; otherwise a fault, or the status returned, the caller's brigade,
  the filter after the call and the \<^verbatim>\<open>DCHECK\<close>s that failed.
\<close>

definition SpdyInputFilter_Read ::
  "'w get_brigade \<Rightarrow> 'w pump \<Rightarrow> accumulator_read \<Rightarrow> 'w SpdyInputFilter
     \<Rightarrow> apr_bucket_brigade \<Rightarrow> ap_input_mode_t \<Rightarrow> apr_read_type_e \<Rightarrow> apr_off_t
     \<Rightarrow> (fault + (apr_status_t \<times> apr_bucket_brigade \<times> 'w SpdyInputFilter \<times> dcheck list)) option" where
  "SpdyInputFilter_Read ap_get_brigade PumpOneFrame Accumulator_Read s brigade mode block readbytes =
     (case npn_detection ap_get_brigade s of
        (Some rv, s1) \<Rightarrow> Some (Inr (rv, brigade, s1, []))
      | (None, s1) \<Rightarrow>
          if npn_state (conn s1) \<noteq> USING_SPDY then
            (case ap_get_brigade (conn s1) brigade mode block readbytes of
               (rv, brigade', c) \<Rightarrow> Some (Inr (rv, brigade', s1\<lparr>conn := c\<rparr>, [])))
          else if aborted (conn s1) then
            Some (Inr (APR_ECONNABORTED, brigade @ [EOS], s1, []))
          else if mode = AP_MODE_INIT then
            Some (Inr (APR_SUCCESS, brigade, s1, []))
          else
            (case pump_loop PumpOneFrame (s1\<lparr>input := set_filter block (input s1)\<rparr>) of
               None \<Rightarrow> None
             | Some s2 \<Rightarrow>
                 Some (Read_from_factory Accumulator_Read
                         (s2\<lparr>input := clear_filter (input s2)\<rparr>) brigade mode block readbytes)))"

section \<open>Sequences of calls\<close>

text \<open>
  A call of a read function is given by its arguments: the caller's brigade, the
  mode, the blocking mode and the number of bytes.
\<close>

type_synonym read_call = "apr_bucket_brigade \<times> ap_input_mode_t \<times> apr_read_type_e \<times> apr_off_t"

text \<open>
  Successive calls of the factory's \<^verbatim>\<open>Read\<close>, each on the queue the one before
  left: what each call returned (status, brigade, failed \<^verbatim>\<open>DCHECK\<close>s), up to the
  first fault.
\<close>

fun Factory_Reads ::
  "accumulator_read \<Rightarrow> AccumulatorQueue \<Rightarrow> read_call list
     \<Rightarrow> (fault + (apr_status_t \<times> apr_bucket_brigade \<times> dcheck list)) list" where
  "Factory_Reads Accumulator_Read queue [] = []"
| "Factory_Reads Accumulator_Read queue ((brigade, mode, block, readbytes) # calls) =
     (case Factory_Read Accumulator_Read queue brigade mode block readbytes of
        Inl f \<Rightarrow> [Inl f]
      | Inr (rv, queue', brigade', dchecks) \<Rightarrow>
          Inr (rv, brigade', dchecks) # Factory_Reads Accumulator_Read queue' calls)"

text \<open>
  The clients of a factory: the distributor calls \<^verbatim>\<open>Create\<close>, the filter calls the
  two queries and \<^verbatim>\<open>Read\<close>, and a converter writes to the accumulator it was given
  through its pointer, which leaves the object at that address in a new state.
\<close>

datatype factory_op =
  Op_Create pointer nat
  | Op_IsDataAvailable
  | Op_HasError
  | Op_Read apr_bucket_brigade ap_input_mode_t apr_read_type_e apr_off_t
  | Op_Converter_write pointer HttpStreamAccumulator

fun Factory_step ::
  "accumulator_read \<Rightarrow> pointer \<Rightarrow> factory_op \<Rightarrow> AccumulatorQueue \<Rightarrow> fault + AccumulatorQueue" where
  "Factory_step Accumulator_Read framer (Op_Create p stream_id) queue =
     Inr (snd (Create framer p queue stream_id))"
| "Factory_step Accumulator_Read framer Op_IsDataAvailable queue =
     Inr (snd (Factory_IsDataAvailable queue))"
| "Factory_step Accumulator_Read framer Op_HasError queue =
     Inr (snd (Factory_HasError queue))"
| "Factory_step Accumulator_Read framer (Op_Read brigade mode block readbytes) queue =
     (case Factory_Read Accumulator_Read queue brigade mode block readbytes of
        Inl f \<Rightarrow> Inl f
      | Inr (rv, queue', brigade', dchecks) \<Rightarrow> Inr queue')"
| "Factory_step Accumulator_Read framer (Op_Converter_write p a) queue =
     Inr (map (\<lambda>(p', a'). if p' = p then (p', a) else (p', a')) queue)"

fun Factory_run ::
  "accumulator_read \<Rightarrow> pointer \<Rightarrow> factory_op list \<Rightarrow> AccumulatorQueue \<Rightarrow> fault + AccumulatorQueue" where
  "Factory_run Accumulator_Read framer [] queue = Inr queue"
| "Factory_run Accumulator_Read framer (op # ops) queue =
     (case Factory_step Accumulator_Read framer op queue of
        Inl f \<Rightarrow> Inl f
      | Inr queue' \<Rightarrow> Factory_run Accumulator_Read framer ops queue')"

text \<open>The pointers of the accumulators a sequence of operations creates, in order.\<close>

fun created :: "factory_op list \<Rightarrow> pointer list" where
  "created [] = []"
| "created (Op_Create p stream_id # ops) = p # created ops"
| "created (op # ops) = created ops"

text \<open>
  Successive calls of \<^verbatim>\<open>SpdyInputFilter::Read\<close> on one connection, each on the
  filter the one before left: what each call returned, and the filter at the end.
\<close>

fun SpdyInputFilter_Reads ::
  "'w get_brigade \<Rightarrow> 'w pump \<Rightarrow> accumulator_read \<Rightarrow> 'w SpdyInputFilter \<Rightarrow> read_call list
     \<Rightarrow> ((fault + (apr_status_t \<times> apr_bucket_brigade \<times> dcheck list)) list \<times> 'w SpdyInputFilter) option" where
  "SpdyInputFilter_Reads ap_get_brigade PumpOneFrame Accumulator_Read s [] = Some ([], s)"
| "SpdyInputFilter_Reads ap_get_brigade PumpOneFrame Accumulator_Read s
       ((brigade, mode, block, readbytes) # calls) =
     (case SpdyInputFilter_Read ap_get_brigade PumpOneFrame Accumulator_Read s
             brigade mode block readbytes of
        None \<Rightarrow> None
      | Some (Inl f) \<Rightarrow> Some ([Inl f], s)
      | Some (Inr (rv, brigade', s', dchecks)) \<Rightarrow>
          (case SpdyInputFilter_Reads ap_get_brigade PumpOneFrame Accumulator_Read s' calls of
             None \<Rightarrow> None
           | Some (results, s'') \<Rightarrow> Some (Inr (rv, brigade', dchecks) # results, s'')))"

text \<open>
  The same calls made of the next filter directly, with no SPDY filter in between:
  what each call returned, and the connection at the end.
\<close>

fun next_filter_reads ::
  "'w get_brigade \<Rightarrow> 'w conn_rec \<Rightarrow> read_call list
     \<Rightarrow> (apr_status_t \<times> apr_bucket_brigade) list \<times> 'w conn_rec" where
  "next_filter_reads ap_get_brigade c [] = ([], c)"
| "next_filter_reads ap_get_brigade c ((brigade, mode, block, readbytes) # calls) =
     (case ap_get_brigade c brigade mode block readbytes of
        (rv, brigade', c') \<Rightarrow>
          (case next_filter_reads ap_get_brigade c' calls of
             (results, c'') \<Rightarrow> ((rv, brigade') # results, c'')))"

section \<open>Concrete collaborators\<close>

text \<open>
  Instances of the parameters, used where a theorem is run on a concrete input: a next
  filter that has no bytes and returns would-block, a next filter that delivers a
  request line, and a pump that finds no bytes, records the would-block status of its
  read in \<^verbatim>\<open>input_\<close> and reports no progress.
\<close>

definition blocked_next_filter :: "unit get_brigade" where
  "blocked_next_filter c brigade mode block readbytes = (APR_EAGAIN, brigade, c)"

definition plain_next_filter :: "unit get_brigade" where
  "plain_next_filter c brigade mode block readbytes =
     (APR_SUCCESS, brigade @ [DATA ''GET / HTTP/1.1''], c)"

text \<open>
  A next filter under which the handshake completes during the read, so that the NPN
  callback sets the state to \<^verbatim>\<open>USING_SPDY\<close>, and the read itself then fails with
  end of file.
\<close>

definition handshake_then_eof_next_filter :: "unit get_brigade" where
  "handshake_then_eof_next_filter c brigade mode block readbytes =
     (APR_EOF, brigade, c\<lparr>npn_state := USING_SPDY\<rparr>)"

definition blocked_pump :: "unit pump" where
  "blocked_pump s = (False, s\<lparr>input := (input s)\<lparr>next_filter_rv := APR_EAGAIN, is_empty := True\<rparr>\<rparr>)"

text \<open>
  A pump that reads a stream-open frame with a malformed header block: the accumulator
  of the new stream is created at the back of the queue and marked errored.
\<close>

definition malformed_frame_pump :: "unit pump" where
  "malformed_frame_pump s =
     (True, s\<lparr>factory := factory s @ [(7, new_HttpStreamAccumulator\<lparr>has_error := True\<rparr>)]\<rparr>)"

text \<open>
  A filter on a connection that is not aborted, between two calls (no filter set in
  \<^verbatim>\<open>input_\<close>, nothing buffered there, \<^verbatim>\<open>temp_brigade_\<close> empty), with the given queue,
  NPN state and status of the last read from the next filter.
\<close>

definition filter_with :: "AccumulatorQueue \<Rightarrow> npn_state_t \<Rightarrow> apr_status_t \<Rightarrow> unit SpdyInputFilter" where
  "filter_with queue npn rv =
     \<lparr>input = \<lparr>filter_block = None, next_filter_rv = rv, is_empty = True\<rparr>,
      factory = queue,
      temp_brigade = [],
      conn = \<lparr>npn_state = npn, aborted = False, next_filter = ()\<rparr>\<rparr>"

text \<open>The condition under which the cleanup removes an accumulator (lines 155-156).\<close>

abbreviation (input) evictable :: "HttpStreamAccumulator \<Rightarrow> bool" where
  "evictable a \<equiv> Accumulator_IsComplete a \<and> (Accumulator_HasError a \<or> Accumulator_IsEmpty a)"

section \<open>The cleanup and the queries of the factory\<close>

lemma RemoveEmptyAccumulators_dropWhile:
  "RemoveEmptyAccumulators q = dropWhile (\<lambda>e. evictable (snd e)) q"
  by (induction q) auto

lemma RemoveEmptyAccumulators_idem:
  "RemoveEmptyAccumulators (RemoveEmptyAccumulators q) = RemoveEmptyAccumulators q"
  by (simp add: RemoveEmptyAccumulators_dropWhile)

lemma RemoveEmptyAccumulators_Cons_fixed:
  "RemoveEmptyAccumulators q = e # rest \<Longrightarrow> RemoveEmptyAccumulators (e # rest) = e # rest"
  by (metis RemoveEmptyAccumulators_idem)

lemma RemoveEmptyAccumulators_front:
  "RemoveEmptyAccumulators q = (p, a) # rest \<Longrightarrow> \<not> evictable a"
  using hd_dropWhile[of "\<lambda>e. evictable (snd e)" q]
  by (auto simp: RemoveEmptyAccumulators_dropWhile)

lemma GetAccumulator_eq:
  "GetAccumulator q =
     (case RemoveEmptyAccumulators q of [] \<Rightarrow> None | e # rest \<Rightarrow> Some e, RemoveEmptyAccumulators q)"
  by (simp add: GetAccumulator_def split: list.splits)

lemma Factory_HasError_snd: "snd (Factory_HasError q) = RemoveEmptyAccumulators q"
  by (simp add: Factory_HasError_def GetAccumulator_eq split: list.splits)

lemma Factory_IsDataAvailable_snd: "snd (Factory_IsDataAvailable q) = RemoveEmptyAccumulators q"
  by (simp add: Factory_IsDataAvailable_def GetAccumulator_eq split: list.splits)

lemma Factory_HasError_fst:
  "fst (Factory_HasError q) =
     (case RemoveEmptyAccumulators q of [] \<Rightarrow> False | (p, a) # rest \<Rightarrow> Accumulator_HasError a)"
  by (simp add: Factory_HasError_def GetAccumulator_eq split: list.splits)

lemma Factory_IsDataAvailable_fst:
  "fst (Factory_IsDataAvailable q) =
     (case RemoveEmptyAccumulators q of [] \<Rightarrow> False
      | (p, a) # rest \<Rightarrow> \<not> Accumulator_HasError a \<and> \<not> Accumulator_IsEmpty a)"
  by (simp add: Factory_IsDataAvailable_def GetAccumulator_eq split: list.splits)

lemma Factory_HasError_eq:
  "Factory_HasError q =
     (case RemoveEmptyAccumulators q of [] \<Rightarrow> False | (p, a) # rest \<Rightarrow> Accumulator_HasError a,
      RemoveEmptyAccumulators q)"
  by (simp add: prod_eq_iff Factory_HasError_fst Factory_HasError_snd)

lemma Factory_IsDataAvailable_eq:
  "Factory_IsDataAvailable q =
     (case RemoveEmptyAccumulators q of [] \<Rightarrow> False
      | (p, a) # rest \<Rightarrow> \<not> Accumulator_HasError a \<and> \<not> Accumulator_IsEmpty a,
      RemoveEmptyAccumulators q)"
  by (simp add: prod_eq_iff Factory_IsDataAvailable_fst Factory_IsDataAvailable_snd)

lemma Factory_Read_eq:
  "Factory_Read rd q brigade mode block readbytes =
     (case RemoveEmptyAccumulators q of
        [] \<Rightarrow> Inr (APR_SUCCESS, [], brigade, [])
      | (p, a) # rest \<Rightarrow>
          if Accumulator_HasError a then Inr (APR_EGENERAL, (p, a) # rest, brigade, [DCHECK_false])
          else if Accumulator_IsEmpty a then Inr (APR_SUCCESS, (p, a) # rest, brigade, [])
          else (case rd a brigade mode block readbytes of
                  (rv, a', brigade') \<Rightarrow>
                    Inr (rv, RemoveEmptyAccumulators ((p, a') # rest), brigade', [])))"
  by (auto simp: Factory_Read_def Factory_HasError_eq Factory_IsDataAvailable_eq GetAccumulator_eq
      RemoveEmptyAccumulators_idem dest: RemoveEmptyAccumulators_Cons_fixed split: list.splits prod.splits)

lemma RemoveEmptyAccumulators_append:
  "list_all (\<lambda>e. evictable (snd e)) front \<Longrightarrow>
     RemoveEmptyAccumulators (front @ back) = RemoveEmptyAccumulators back"
  by (induction front) auto

lemma RemoveEmptyAccumulators_keep:
  "\<not> evictable a \<Longrightarrow> RemoveEmptyAccumulators ((p, a) # rest) = (p, a) # rest"
  by auto

lemma RemoveEmptyAccumulators_split:
  "\<exists>front. q = front @ RemoveEmptyAccumulators q \<and> list_all (\<lambda>e. evictable (snd e)) front"
proof (induction q)
  case Nil
  then show ?case by simp
next
  case (Cons e q)
  obtain p a where e: "e = (p, a)" by (cases e)
  from Cons obtain front where
    front: "q = front @ RemoveEmptyAccumulators q" "list_all (\<lambda>e. evictable (snd e)) front"
    by blast
  show ?case
  proof (cases "evictable a")
    case True
    have "e # q = (e # front) @ RemoveEmptyAccumulators (e # q)"
      using True front(1) e by simp
    moreover have "list_all (\<lambda>e. evictable (snd e)) (e # front)"
      using True front(2) e by simp
    ultimately show ?thesis by blast
  next
    case False
    have "e # q = [] @ RemoveEmptyAccumulators (e # q)"
      using False e by auto
    moreover have "list_all (\<lambda>e. evictable (snd e)) []" by simp
    ultimately show ?thesis by blast
  qed
qed

text \<open>
  C4: the queries change the queue only by the cleanup, and the cleanup removes a run
  of accumulators from the front: every accumulator removed is complete and (errored
  or empty), and the first one kept is not, so an accumulator that is not complete, or
  is complete with unread data and no error, is never removed.
\<close>

theorem cleanup_evicts_front_run:
  "snd (GetAccumulator q) = RemoveEmptyAccumulators q \<and>
   snd (Factory_IsDataAvailable q) = RemoveEmptyAccumulators q \<and>
   snd (Factory_HasError q) = RemoveEmptyAccumulators q \<and>
   (\<exists>front. q = front @ RemoveEmptyAccumulators q \<and>
      list_all (\<lambda>e. Accumulator_IsComplete (snd e) \<and>
                 (Accumulator_HasError (snd e) \<or> Accumulator_IsEmpty (snd e))) front) \<and>
   (case RemoveEmptyAccumulators q of
      [] \<Rightarrow> True
    | (p, a) # rest \<Rightarrow>
        \<not> (Accumulator_IsComplete a \<and> (Accumulator_HasError a \<or> Accumulator_IsEmpty a)))"
proof -
  have "case RemoveEmptyAccumulators q of
      [] \<Rightarrow> True
    | (p, a) # rest \<Rightarrow> \<not> evictable a"
    using RemoveEmptyAccumulators_front[of q] by (auto split: list.splits)
  then show ?thesis
    using RemoveEmptyAccumulators_split[of q]
    by (simp add: GetAccumulator_eq Factory_HasError_snd Factory_IsDataAvailable_snd)
qed

theorem cleanup_evicts_front_run_witness:
  "RemoveEmptyAccumulators
     [(1, \<lparr>buffer = [], is_complete = True, has_error = False\<rparr>),
      (2, \<lparr>buffer = ''GET'', is_complete = True, has_error = True\<rparr>),
      (3, \<lparr>buffer = ''GET /a'', is_complete = True, has_error = False\<rparr>),
      (4, \<lparr>buffer = [], is_complete = True, has_error = False\<rparr>)] =
     [(3, \<lparr>buffer = ''GET /a'', is_complete = True, has_error = False\<rparr>),
      (4, \<lparr>buffer = [], is_complete = True, has_error = False\<rparr>)] \<and>
   snd (Factory_HasError
     [(1, \<lparr>buffer = [], is_complete = True, has_error = False\<rparr>),
      (2, \<lparr>buffer = ''GET'', is_complete = True, has_error = True\<rparr>),
      (3, \<lparr>buffer = ''GET /a'', is_complete = True, has_error = False\<rparr>),
      (4, \<lparr>buffer = [], is_complete = True, has_error = False\<rparr>)]) =
     [(3, \<lparr>buffer = ''GET /a'', is_complete = True, has_error = False\<rparr>),
      (4, \<lparr>buffer = [], is_complete = True, has_error = False\<rparr>)]"
  using cleanup_evicts_front_run
    [of "[(1, \<lparr>buffer = [], is_complete = True, has_error = False\<rparr>),
      (2, \<lparr>buffer = ''GET'', is_complete = True, has_error = True\<rparr>),
      (3, \<lparr>buffer = ''GET /a'', is_complete = True, has_error = False\<rparr>),
      (4, \<lparr>buffer = [], is_complete = True, has_error = False\<rparr>)]"]
  by (simp add: Accumulator_IsComplete_def Accumulator_HasError_def Accumulator_IsEmpty_def)

lemma Factory_Read_cleaned:
  "Factory_Read rd (RemoveEmptyAccumulators q) brigade mode block readbytes =
   Factory_Read rd q brigade mode block readbytes"
  by (simp add: Factory_Read_eq RemoveEmptyAccumulators_idem)

lemma Factory_Reads_cleaned:
  "Factory_Reads rd (RemoveEmptyAccumulators q) calls = Factory_Reads rd q calls"
proof (cases calls)
  case Nil
  then show ?thesis by simp
next
  case (Cons c cs)
  obtain brigade mode block readbytes where "c = (brigade, mode, block, readbytes)"
    by (cases c)
  with Cons show ?thesis by (simp add: Factory_Read_cleaned)
qed

text \<open>
  C5: the cleanup is idempotent, and a call of \<^verbatim>\<open>IsDataAvailable\<close> or \<^verbatim>\<open>HasError\<close>
  before a read, or before a sequence of reads, changes nothing of what the reads
  return (status, bytes, resulting queue), nor what the other query answers.
\<close>

theorem cleanup_idempotent_queries_transparent:
  "RemoveEmptyAccumulators (RemoveEmptyAccumulators q) = RemoveEmptyAccumulators q \<and>
   Factory_Read rd (snd (Factory_IsDataAvailable q)) brigade mode block readbytes =
     Factory_Read rd q brigade mode block readbytes \<and>
   Factory_Read rd (snd (Factory_HasError q)) brigade mode block readbytes =
     Factory_Read rd q brigade mode block readbytes \<and>
   Factory_Reads rd (snd (Factory_IsDataAvailable q)) calls = Factory_Reads rd q calls \<and>
   Factory_Reads rd (snd (Factory_HasError q)) calls = Factory_Reads rd q calls \<and>
   fst (Factory_IsDataAvailable (snd (Factory_HasError q))) = fst (Factory_IsDataAvailable q) \<and>
   fst (Factory_HasError (snd (Factory_IsDataAvailable q))) = fst (Factory_HasError q)"
  by (simp add: RemoveEmptyAccumulators_idem Factory_HasError_snd Factory_IsDataAvailable_snd
      Factory_Read_cleaned Factory_Reads_cleaned Factory_HasError_fst Factory_IsDataAvailable_fst)

section \<open>The head of the queue\<close>

lemma RemoveEmptyAccumulators_head:
  assumes "list_all (\<lambda>e. evictable (snd e)) front" and "\<not> evictable a"
  shows "RemoveEmptyAccumulators (front @ (p, a) # rest) = (p, a) # rest"
proof -
  have "RemoveEmptyAccumulators (front @ (p, a) # rest) = RemoveEmptyAccumulators ((p, a) # rest)"
    using assms(1) by (rule RemoveEmptyAccumulators_append)
  also have "\<dots> = (p, a) # rest"
    using assms(2) by (rule RemoveEmptyAccumulators_keep)
  finally show ?thesis .
qed

lemma Factory_HasError_head:
  assumes "list_all (\<lambda>e. evictable (snd e)) front" and "\<not> evictable a"
  shows "Factory_HasError (front @ (p, a) # rest) = (Accumulator_HasError a, (p, a) # rest)"
  by (simp add: Factory_HasError_eq RemoveEmptyAccumulators_head[OF assms])

lemma Factory_IsDataAvailable_head:
  assumes "list_all (\<lambda>e. evictable (snd e)) front" and "\<not> evictable a"
  shows "Factory_IsDataAvailable (front @ (p, a) # rest) =
    (\<not> Accumulator_HasError a \<and> \<not> Accumulator_IsEmpty a, (p, a) # rest)"
  by (simp add: Factory_IsDataAvailable_eq RemoveEmptyAccumulators_head[OF assms])

text \<open>
  C8: \<^verbatim>\<open>HasError()\<close> of the factory is true exactly when the queue left by the
  cleanup is not empty and its front accumulator has an error. When the accumulators
  in front of \<^verbatim>\<open>a\<close> are all removed by the cleanup and \<^verbatim>\<open>a\<close> is not, the answer is the
  error state of \<^verbatim>\<open>a\<close>, whatever the accumulators behind it hold.
\<close>

theorem HasError_reflects_head_only:
  "fst (Factory_HasError q) =
     (case RemoveEmptyAccumulators q of
        [] \<Rightarrow> False
      | (p, a) # rest \<Rightarrow> Accumulator_HasError a) \<and>
   (list_all (\<lambda>e. Accumulator_IsComplete (snd e) \<and>
                (Accumulator_HasError (snd e) \<or> Accumulator_IsEmpty (snd e))) front \<and>
    \<not> (Accumulator_IsComplete a \<and> (Accumulator_HasError a \<or> Accumulator_IsEmpty a)) \<longrightarrow>
      fst (Factory_HasError (front @ (p, a) # rest)) = Accumulator_HasError a)"
  using Factory_HasError_head[of front a p rest]
  by (simp add: Factory_HasError_fst)

theorem HasError_reflects_head_only_witness:
  "list_all (\<lambda>e. Accumulator_IsComplete (snd e) \<and>
                (Accumulator_HasError (snd e) \<or> Accumulator_IsEmpty (snd e)))
     [(1, \<lparr>buffer = [], is_complete = True, has_error = False\<rparr>)] \<and>
   \<not> (Accumulator_IsComplete \<lparr>buffer = ''GET /a'', is_complete = False, has_error = False\<rparr> \<and>
      (Accumulator_HasError \<lparr>buffer = ''GET /a'', is_complete = False, has_error = False\<rparr> \<or>
       Accumulator_IsEmpty \<lparr>buffer = ''GET /a'', is_complete = False, has_error = False\<rparr>)) \<and>
   fst (Factory_HasError
     ([(1, \<lparr>buffer = [], is_complete = True, has_error = False\<rparr>)] @
      (2, \<lparr>buffer = ''GET /a'', is_complete = False, has_error = False\<rparr>) #
      [(3, \<lparr>buffer = [], is_complete = False, has_error = True\<rparr>)])) = False"
  using HasError_reflects_head_only
    [of "[(1, \<lparr>buffer = [], is_complete = True, has_error = False\<rparr>),
          (2, \<lparr>buffer = ''GET /a'', is_complete = False, has_error = False\<rparr>),
          (3, \<lparr>buffer = [], is_complete = False, has_error = True\<rparr>)]"
        "[(1, \<lparr>buffer = [], is_complete = True, has_error = False\<rparr>)]"
        "\<lparr>buffer = ''GET /a'', is_complete = False, has_error = False\<rparr>"
        2
        "[(3, \<lparr>buffer = [], is_complete = False, has_error = True\<rparr>)]"]
  by (simp add: Accumulator_IsComplete_def Accumulator_HasError_def Accumulator_IsEmpty_def)

lemma Factory_Read_head:
  assumes "list_all (\<lambda>e. evictable (snd e)) front" and "\<not> evictable a"
  shows "Factory_Read rd (front @ (p, a) # rest) brigade mode block readbytes =
     (if Accumulator_HasError a then Inr (APR_EGENERAL, (p, a) # rest, brigade, [DCHECK_false])
      else if Accumulator_IsEmpty a then Inr (APR_SUCCESS, (p, a) # rest, brigade, [])
      else (case rd a brigade mode block readbytes of
              (rv, a', brigade') \<Rightarrow>
                Inr (rv, RemoveEmptyAccumulators ((p, a') # rest), brigade', [])))"
  by (simp add: Factory_Read_eq RemoveEmptyAccumulators_head[OF assms])

lemma Factory_Reads_stalled:
  assumes "\<not> Accumulator_IsComplete a" and "Accumulator_IsEmpty a" and "\<not> Accumulator_HasError a"
  shows "Factory_Reads rd ((p, a) # rest) calls =
           map (\<lambda>(brigade, mode, block, readbytes). Inr (APR_SUCCESS, brigade, [])) calls"
proof (induction calls)
  case Nil
  show ?case by simp
next
  case (Cons c calls)
  obtain brigade mode block readbytes where c: "c = (brigade, mode, block, readbytes)"
    by (cases c)
  have "\<not> evictable a" using assms(1) by simp
  then have "Factory_Read rd ([] @ (p, a) # rest) brigade mode block readbytes =
      Inr (APR_SUCCESS, (p, a) # rest, brigade, [])"
    using assms(2,3) by (subst Factory_Read_head) simp_all
  then show ?case using Cons c by simp
qed

lemma Factory_Read_suffix:
  "\<exists>rv q' brigade' dchecks.
     Factory_Read rd q brigade mode block readbytes = Inr (rv, q', brigade', dchecks) \<and>
     suffix (map fst q') (map fst q)"
proof -
  obtain front where front: "q = front @ RemoveEmptyAccumulators q"
    using RemoveEmptyAccumulators_split by blast
  then have s: "suffix (RemoveEmptyAccumulators q) q"
    by (metis suffixI)
  show ?thesis
  proof (cases "RemoveEmptyAccumulators q")
    case Nil
    then show ?thesis by (simp add: Factory_Read_eq)
  next
    case (Cons e rest)
    obtain p a where e: "e = (p, a)" by (cases e)
    have q: "suffix (map fst ((p, a) # rest)) (map fst q)"
      using s Cons e by (metis map_mono_suffix)
    show ?thesis
    proof (cases "Accumulator_HasError a \<or> Accumulator_IsEmpty a")
      case True
      then show ?thesis using q Cons e by (auto simp: Factory_Read_eq)
    next
      case False
      obtain rv a' brigade' where r: "rd a brigade mode block readbytes = (rv, a', brigade')"
        by (cases "rd a brigade mode block readbytes")
      obtain front' where "(p, a') # rest = front' @ RemoveEmptyAccumulators ((p, a') # rest)"
        using RemoveEmptyAccumulators_split by blast
      then have "suffix (RemoveEmptyAccumulators ((p, a') # rest)) ((p, a') # rest)"
        by (metis suffixI)
      then have "suffix (map fst (RemoveEmptyAccumulators ((p, a') # rest))) (map fst ((p, a') # rest))"
        by (rule map_mono_suffix)
      then have "suffix (map fst (RemoveEmptyAccumulators ((p, a') # rest))) (map fst q)"
        using q by (metis list.simps(9) fst_conv suffix_order.trans)
      then show ?thesis using False Cons e r by (simp add: Factory_Read_eq)
    qed
  qed
qed

lemma Factory_step_suffix:
  "\<exists>q'. Factory_step rd framer op q = Inr q' \<and> suffix (map fst q') (map fst q @ created [op])"
proof (cases op)
  case (Op_Create p sid)
  then show ?thesis by (simp add: Create_def)
next
  case Op_IsDataAvailable
  obtain front where "q = front @ RemoveEmptyAccumulators q"
    using RemoveEmptyAccumulators_split by blast
  then have "suffix (map fst (RemoveEmptyAccumulators q)) (map fst q)"
    by (metis suffixI map_mono_suffix)
  then show ?thesis using Op_IsDataAvailable by (simp add: Factory_IsDataAvailable_snd)
next
  case Op_HasError
  obtain front where "q = front @ RemoveEmptyAccumulators q"
    using RemoveEmptyAccumulators_split by blast
  then have "suffix (map fst (RemoveEmptyAccumulators q)) (map fst q)"
    by (metis suffixI map_mono_suffix)
  then show ?thesis using Op_HasError by (simp add: Factory_HasError_snd)
next
  case (Op_Read brigade mode block readbytes)
  then show ?thesis
    using Factory_Read_suffix[of rd q brigade mode block readbytes] by auto
next
  case (Op_Converter_write p a)
  have "map fst (map (\<lambda>(p', a'). if p' = p then (p', a) else (p', a')) q) = map fst q"
    by (induction q) auto
  then have "suffix (map fst (map (\<lambda>(p', a'). if p' = p then (p', a) else (p', a')) q)) (map fst q)"
    by (simp only: suffix_order.refl)
  then show ?thesis using Op_Converter_write by (simp del: map_map)
qed

lemma created_Cons: "created (op # ops) = created [op] @ created ops"
  by (cases op) simp_all

lemma Factory_run_suffix:
  "\<exists>q'. Factory_run rd framer ops q = Inr q' \<and> suffix (map fst q') (map fst q @ created ops)"
proof (induction ops arbitrary: q)
  case Nil
  show ?case by simp
next
  case (Cons op ops)
  obtain q1 where q1: "Factory_step rd framer op q = Inr q1"
    "suffix (map fst q1) (map fst q @ created [op])"
    using Factory_step_suffix by blast
  obtain q' where q': "Factory_run rd framer ops q1 = Inr q'"
    "suffix (map fst q') (map fst q1 @ created ops)"
    using Cons.IH by blast
  have "suffix (map fst q1 @ created ops) ((map fst q @ created [op]) @ created ops)"
    using q1(2) by (simp only: same_suffix_suffix)
  then have "suffix (map fst q') (map fst q @ created (op # ops))"
    using q'(2) created_Cons[of op ops] by (metis append.assoc suffix_order.trans)
  then show ?case using q1(1) q'(1) by simp
qed

text \<open>
  C10: \<^verbatim>\<open>Create\<close> appends one new accumulator at the back of the queue and returns
  a converter holding the pointer to it. After any sequence of operations of the
  factory's clients the pointers in the queue, front to back, are a suffix of the
  pointers created, in the order of their creation.
\<close>

theorem Create_pushes_back_in_creation_order:
  "Create framer p q stream_id =
     (\<lparr>converter_framer = framer, converter_accumulator = p\<rparr>,
      q @ [(p, new_HttpStreamAccumulator)]) \<and>
   length (snd (Create framer p q stream_id)) = Suc (length q) \<and>
   (\<exists>q'. Factory_run rd framer ops q = Inr q' \<and>
      suffix (map fst q') (map fst q @ created ops)) \<and>
   (\<exists>q'. Factory_run rd framer ops [] = Inr q' \<and> suffix (map fst q') (created ops))"
  using Factory_run_suffix[of rd framer ops q] Factory_run_suffix[of rd framer ops "[]"]
  by (simp add: Create_def)

theorem Create_pushes_back_in_creation_order_witness:
  "Factory_run Accumulator_Read_spec 0
     [Op_Create 10 1, Op_Create 20 3,
      Op_Converter_write 20 \<lparr>buffer = ''GET /b'', is_complete = True, has_error = False\<rparr>,
      Op_Converter_write 10 \<lparr>buffer = [], is_complete = True, has_error = False\<rparr>,
      Op_HasError, Op_Create 30 5] [] =
   Inr [(20, \<lparr>buffer = ''GET /b'', is_complete = True, has_error = False\<rparr>),
        (30, \<lparr>buffer = [], is_complete = False, has_error = False\<rparr>)] \<and>
   created
     [Op_Create 10 1, Op_Create 20 3,
      Op_Converter_write 20 \<lparr>buffer = ''GET /b'', is_complete = True, has_error = False\<rparr>,
      Op_Converter_write 10 \<lparr>buffer = [], is_complete = True, has_error = False\<rparr>,
      Op_HasError, Op_Create 30 5] = [10, 20, 30]"
  using Create_pushes_back_in_creation_order
    [where rd = Accumulator_Read_spec and framer = 0 and q = "[]" and p = 10 and stream_id = 1
       and ops = "[Op_Create 10 1, Op_Create 20 3,
      Op_Converter_write 20 \<lparr>buffer = ''GET /b'', is_complete = True, has_error = False\<rparr>,
      Op_Converter_write 10 \<lparr>buffer = [], is_complete = True, has_error = False\<rparr>,
      Op_HasError, Op_Create 30 5]"]
  by (simp add: Create_def new_HttpStreamAccumulator_def Factory_HasError_eq
      Accumulator_IsComplete_def Accumulator_HasError_def Accumulator_IsEmpty_def)

section \<open>The pipeline of the filter\<close>

lemma pump_loop_error:
  assumes "fst (Factory_HasError (factory s))"
  shows "pump_loop pump s = Some (s\<lparr>factory := RemoveEmptyAccumulators (factory s)\<rparr>)"
  using assms by (subst pump_loop.simps) (simp add: Factory_HasError_eq)

lemma pump_loop_available:
  assumes "fst (Factory_IsDataAvailable (factory s))"
  shows "pump_loop pump s = Some (s\<lparr>factory := RemoveEmptyAccumulators (factory s)\<rparr>)"
  using assms
  by (subst pump_loop.simps)
    (simp add: Factory_HasError_eq Factory_IsDataAvailable_eq RemoveEmptyAccumulators_idem)

lemma pump_loop_no_progress:
  assumes "\<not> fst (Factory_HasError (factory s))"
    and "\<not> fst (Factory_IsDataAvailable (factory s))"
    and "pump (s\<lparr>factory := RemoveEmptyAccumulators (factory s)\<rparr>) = (False, s')"
  shows "pump_loop pump s = Some s'"
  using assms
  by (subst pump_loop.simps)
    (simp add: Factory_HasError_eq Factory_IsDataAvailable_eq RemoveEmptyAccumulators_idem)

lemma pump_loop_progress:
  assumes "\<not> fst (Factory_HasError (factory s))"
    and "\<not> fst (Factory_IsDataAvailable (factory s))"
    and "pump (s\<lparr>factory := RemoveEmptyAccumulators (factory s)\<rparr>) = (True, s')"
  shows "pump_loop pump s = pump_loop pump s'"
  using assms
  by (subst pump_loop.simps)
    (simp add: Factory_HasError_eq Factory_IsDataAvailable_eq RemoveEmptyAccumulators_idem)

lemma Factory_Read_no_error:
  assumes "\<not> fst (Factory_HasError q)"
  shows "\<exists>rv q' brigade'. Factory_Read rd q brigade mode block readbytes = Inr (rv, q', brigade', [])"
  using assms
  by (auto simp: Factory_Read_eq Factory_HasError_fst split: list.splits prod.splits)

lemma Read_from_factory_error:
  assumes "fst (Factory_HasError (factory s))"
  shows "Read_from_factory rd s brigade mode block readbytes =
    Inr (APR_EGENERAL, brigade @ [EOS], s\<lparr>factory := RemoveEmptyAccumulators (factory s)\<rparr>, [])"
  using assms by (simp add: Read_from_factory_def Factory_HasError_eq)

lemma Read_from_factory_no_DCHECK_false:
  "\<exists>rv brigade' s' dchecks.
     Read_from_factory rd s brigade mode block readbytes = Inr (rv, brigade', s', dchecks) \<and>
     DCHECK_false \<notin> set dchecks"
proof (cases "fst (Factory_HasError (factory s))")
  case True
  then show ?thesis by (simp add: Read_from_factory_error)
next
  case False
  then have "\<not> fst (Factory_HasError (RemoveEmptyAccumulators (factory s)))"
    by (simp add: Factory_HasError_fst RemoveEmptyAccumulators_idem)
  then obtain rv q' brigade' where
    "Factory_Read rd (RemoveEmptyAccumulators (factory s)) brigade mode block readbytes =
       Inr (rv, q', brigade', [])"
    using Factory_Read_no_error by blast
  then show ?thesis using False
    by (simp add: Read_from_factory_def Factory_HasError_eq Factory_IsDataAvailable_eq)
qed

lemma SpdyInputFilter_Read_pipeline:
  assumes "npn_state (conn s) = USING_SPDY" and "\<not> aborted (conn s)" and "mode \<noteq> AP_MODE_INIT"
  shows "SpdyInputFilter_Read agb pump rd s brigade mode block readbytes =
    (case pump_loop pump (s\<lparr>input := set_filter block (input s)\<rparr>) of
       None \<Rightarrow> None
     | Some s2 \<Rightarrow>
         Some (Read_from_factory rd (s2\<lparr>input := clear_filter (input s2)\<rparr>)
                 brigade mode block readbytes))"
  using assms by (simp add: SpdyInputFilter_Read_def npn_detection_def)

text \<open>
  C9: the branch of lines 123-126 of the factory's \<^verbatim>\<open>Read\<close> (\<^verbatim>\<open>DCHECK(false)\<close>, then
  \<^verbatim>\<open>APR_EGENERAL\<close>) is not reached from \<^verbatim>\<open>SpdyInputFilter::Read\<close>. When the factory
  has an error the filter returns on its own error path; otherwise the queue it hands
  to the factory's read has no error. So the part of the filter after the pump loop,
  from any state, and a whole call that returns, end without that \<^verbatim>\<open>DCHECK\<close>
  failing and without a fault.
\<close>

theorem factory_Read_error_branch_unreachable:
  "(fst (Factory_HasError (factory s)) \<longrightarrow>
      Read_from_factory rd s brigade mode block readbytes =
        Inr (APR_EGENERAL, brigade @ [EOS], s\<lparr>factory := snd (Factory_HasError (factory s))\<rparr>, [])) \<and>
   (\<not> fst (Factory_HasError (factory s)) \<longrightarrow>
      \<not> fst (Factory_HasError (snd (Factory_HasError (factory s))))) \<and>
   (\<exists>rv brigade' s' dchecks.
      Read_from_factory rd s brigade mode block readbytes = Inr (rv, brigade', s', dchecks) \<and>
      DCHECK_false \<notin> set dchecks) \<and>
   (SpdyInputFilter_Read agb pump rd s brigade mode block readbytes = None \<or>
    (\<exists>rv brigade' s' dchecks.
       SpdyInputFilter_Read agb pump rd s brigade mode block readbytes =
         Some (Inr (rv, brigade', s', dchecks)) \<and>
       DCHECK_false \<notin> set dchecks))"
proof (intro conjI impI)
  assume "fst (Factory_HasError (factory s))"
  then show "Read_from_factory rd s brigade mode block readbytes =
        Inr (APR_EGENERAL, brigade @ [EOS], s\<lparr>factory := snd (Factory_HasError (factory s))\<rparr>, [])"
    by (simp add: Read_from_factory_error Factory_HasError_snd)
next
  assume "\<not> fst (Factory_HasError (factory s))"
  then show "\<not> fst (Factory_HasError (snd (Factory_HasError (factory s))))"
    by (simp add: Factory_HasError_fst Factory_HasError_snd RemoveEmptyAccumulators_idem)
next
  show "\<exists>rv brigade' s' dchecks.
      Read_from_factory rd s brigade mode block readbytes = Inr (rv, brigade', s', dchecks) \<and>
      DCHECK_false \<notin> set dchecks"
    by (rule Read_from_factory_no_DCHECK_false)
next
  show "SpdyInputFilter_Read agb pump rd s brigade mode block readbytes = None \<or>
    (\<exists>rv brigade' s' dchecks.
       SpdyInputFilter_Read agb pump rd s brigade mode block readbytes =
         Some (Inr (rv, brigade', s', dchecks)) \<and>
       DCHECK_false \<notin> set dchecks)"
    using Read_from_factory_no_DCHECK_false[of rd _ brigade mode block readbytes]
    by (auto simp: SpdyInputFilter_Read_def split: prod.splits option.splits)
qed

theorem factory_Read_error_branch_unreachable_witness:
  "fst (Factory_HasError [(1, \<lparr>buffer = ''GET'', is_complete = False, has_error = True\<rparr>)]) \<and>
   Factory_Read Accumulator_Read_spec
     [(1, \<lparr>buffer = ''GET'', is_complete = False, has_error = True\<rparr>)]
     [] AP_MODE_READBYTES APR_NONBLOCK_READ 100 =
   Inr (APR_EGENERAL, [(1, \<lparr>buffer = ''GET'', is_complete = False, has_error = True\<rparr>)],
        [], [DCHECK_false]) \<and>
   Read_from_factory Accumulator_Read_spec
     (filter_with [(1, \<lparr>buffer = ''GET'', is_complete = False, has_error = True\<rparr>)]
        USING_SPDY APR_SUCCESS)
     [] AP_MODE_READBYTES APR_NONBLOCK_READ 100 =
   Inr (APR_EGENERAL, [EOS],
        filter_with [(1, \<lparr>buffer = ''GET'', is_complete = False, has_error = True\<rparr>)]
          USING_SPDY APR_SUCCESS, [])"
proof -
  note defs = Accumulator_IsComplete_def Accumulator_HasError_def Accumulator_IsEmpty_def
  have 1: "fst (Factory_HasError [(1, \<lparr>buffer = ''GET'', is_complete = False, has_error = True\<rparr>)])"
    by (simp add: Factory_HasError_eq defs)
  have 2: "Factory_Read Accumulator_Read_spec
     [(1, \<lparr>buffer = ''GET'', is_complete = False, has_error = True\<rparr>)]
     [] AP_MODE_READBYTES APR_NONBLOCK_READ 100 =
   Inr (APR_EGENERAL, [(1, \<lparr>buffer = ''GET'', is_complete = False, has_error = True\<rparr>)],
        [], [DCHECK_false])"
    by (simp add: Factory_Read_eq defs)
  have 3: "Read_from_factory Accumulator_Read_spec
     (filter_with [(1, \<lparr>buffer = ''GET'', is_complete = False, has_error = True\<rparr>)]
        USING_SPDY APR_SUCCESS)
     [] AP_MODE_READBYTES APR_NONBLOCK_READ 100 =
   Inr (APR_EGENERAL, [EOS],
        filter_with [(1, \<lparr>buffer = ''GET'', is_complete = False, has_error = True\<rparr>)]
          USING_SPDY APR_SUCCESS, [])"
    using 1 factory_Read_error_branch_unreachable
      [where rd = Accumulator_Read_spec and brigade = "[]" and mode = AP_MODE_READBYTES
         and block = APR_NONBLOCK_READ and readbytes = 100
         and agb = blocked_next_filter and pump = blocked_pump
         and s = "filter_with [(1, \<lparr>buffer = ''GET'', is_complete = False, has_error = True\<rparr>)]
                    USING_SPDY APR_SUCCESS",
       THEN conjunct1]
    by (simp add: filter_with_def Factory_HasError_eq defs)
  from 1 2 3 show ?thesis by blast
qed

text \<open>
  C2 as stated fails: an accumulator that is errored and complete is at the head of the
  queue; the cleanup inside \<^verbatim>\<open>HasError()\<close> removes it, and the read returns the
  would-block status of the next filter with no end-of-stream bucket.
\<close>

theorem errored_complete_head_dropped_counterexample:
  "Accumulator_HasError \<lparr>buffer = [], is_complete = True, has_error = True\<rparr> \<and>
   SpdyInputFilter_Read blocked_next_filter blocked_pump Accumulator_Read_spec
     (filter_with [(1, \<lparr>buffer = [], is_complete = True, has_error = True\<rparr>)]
        USING_SPDY APR_SUCCESS)
     [] AP_MODE_READBYTES APR_NONBLOCK_READ 100 =
   Some (Inr (APR_EAGAIN, [], filter_with [] USING_SPDY APR_EAGAIN, [])) \<and>
   APR_EAGAIN \<noteq> APR_EGENERAL"
proof -
  note defs = Accumulator_IsComplete_def Accumulator_HasError_def Accumulator_IsEmpty_def
  let ?s = "filter_with [(1, \<lparr>buffer = [], is_complete = True, has_error = True\<rparr>)]
              USING_SPDY APR_SUCCESS"
  let ?after = "(filter_with [] USING_SPDY APR_EAGAIN)
      \<lparr>input := set_filter APR_NONBLOCK_READ (input (filter_with [] USING_SPDY APR_EAGAIN))\<rparr>"
  have loop: "pump_loop blocked_pump (?s\<lparr>input := set_filter APR_NONBLOCK_READ (input ?s)\<rparr>) =
      Some ?after"
    by (rule pump_loop_no_progress)
      (simp_all add: filter_with_def Factory_HasError_eq Factory_IsDataAvailable_eq defs
        blocked_pump_def set_filter_def)
  have "SpdyInputFilter_Read blocked_next_filter blocked_pump Accumulator_Read_spec ?s
     [] AP_MODE_READBYTES APR_NONBLOCK_READ 100 =
   Some (Inr (APR_EAGAIN, [], filter_with [] USING_SPDY APR_EAGAIN, []))"
    using loop
    by (simp add: SpdyInputFilter_Read_pipeline Read_from_factory_def Factory_HasError_eq
        Factory_IsDataAvailable_eq Factory_Read_eq clear_filter_def set_filter_def filter_with_def)
  then show ?thesis
    by (simp add: defs APR_EAGAIN_def APR_EGENERAL_def)
qed

lemma SpdyInputFilter_Read_after_loop:
  assumes "npn_state (conn s) = USING_SPDY" and "\<not> aborted (conn s)" and "mode \<noteq> AP_MODE_INIT"
    and "pump_loop pump (s\<lparr>input := set_filter block (input s)\<rparr>) = Some s2"
  shows "SpdyInputFilter_Read agb pump rd s brigade mode block readbytes =
    Some (Read_from_factory rd (s2\<lparr>input := clear_filter (input s2)\<rparr>) brigade mode block readbytes)"
  using assms by (simp add: SpdyInputFilter_Read_pipeline)

text \<open>
  C2, amended: when the pipeline is reached (NPN state \<^verbatim>\<open>USING_SPDY\<close>, connection not
  aborted, mode not \<^verbatim>\<open>AP_MODE_INIT\<close>) and the accumulator at the head of the queue,
  behind accumulators the cleanup removes, is errored and not complete, the read
  appends an end-of-stream bucket to the caller's brigade and returns
  \<^verbatim>\<open>APR_EGENERAL\<close>. This holds for the queue at the start of the call and for the
  queue the pump loop leaves. An accumulator that is errored and complete is removed
  by the cleanup with those before it: \<^verbatim>\<open>HasError()\<close> then answers for the
  accumulators behind it.
\<close>

theorem errored_incomplete_head_reported:
  assumes "npn_state (conn s) = USING_SPDY" and "\<not> aborted (conn s)" and "mode \<noteq> AP_MODE_INIT"
    and "list_all (\<lambda>e. Accumulator_IsComplete (snd e) \<and>
                (Accumulator_HasError (snd e) \<or> Accumulator_IsEmpty (snd e))) front"
    and "Accumulator_HasError a" and "\<not> Accumulator_IsComplete a"
  shows
    "(factory s = front @ (p, a) # rest \<longrightarrow>
        SpdyInputFilter_Read agb pump rd s brigade mode block readbytes =
          Some (Inr (APR_EGENERAL, brigade @ [EOS],
                     s\<lparr>input := clear_filter (set_filter block (input s)),
                       factory := (p, a) # rest\<rparr>, []))) \<and>
     (pump_loop pump (s\<lparr>input := set_filter block (input s)\<rparr>) = Some t \<and>
      factory t = front @ (p, a) # rest \<longrightarrow>
        SpdyInputFilter_Read agb pump rd s brigade mode block readbytes =
          Some (Inr (APR_EGENERAL, brigade @ [EOS],
                     t\<lparr>input := clear_filter (input t), factory := (p, a) # rest\<rparr>, []))) \<and>
     (Accumulator_HasError b \<and> Accumulator_IsComplete b \<longrightarrow>
        Factory_HasError (front @ (p, b) # rest) = Factory_HasError rest)"
proof (intro conjI impI)
  have a: "\<not> evictable a" using assms(6) by simp
  note head = Factory_HasError_head[OF assms(4) a, of p rest]
    RemoveEmptyAccumulators_head[OF assms(4) a, of p rest]
  {
    assume q: "factory s = front @ (p, a) # rest"
    let ?s1 = "s\<lparr>input := set_filter block (input s)\<rparr>"
    have "fst (Factory_HasError (factory ?s1))"
      using q head(1) assms(5) by simp
    then have loop: "pump_loop pump ?s1 = Some (?s1\<lparr>factory := (p, a) # rest\<rparr>)"
      using pump_loop_error[of ?s1 pump] q head(2) by simp
    have "fst (Factory_HasError (factory (?s1\<lparr>factory := (p, a) # rest, input := clear_filter (input ?s1)\<rparr>)))"
      using Factory_HasError_head[of "[]" a p rest] assms(5) a by simp
    moreover have "RemoveEmptyAccumulators ((p, a) # rest) = (p, a) # rest"
      using a by (rule RemoveEmptyAccumulators_keep)
    ultimately show "SpdyInputFilter_Read agb pump rd s brigade mode block readbytes =
          Some (Inr (APR_EGENERAL, brigade @ [EOS],
                     s\<lparr>input := clear_filter (set_filter block (input s)),
                       factory := (p, a) # rest\<rparr>, []))"
      using SpdyInputFilter_Read_after_loop[OF assms(1-3) loop, of agb rd brigade readbytes] a
      by (simp add: Read_from_factory_error)
  }
  {
    assume h: "pump_loop pump (s\<lparr>input := set_filter block (input s)\<rparr>) = Some t \<and>
      factory t = front @ (p, a) # rest"
    then have "fst (Factory_HasError (factory (t\<lparr>input := clear_filter (input t)\<rparr>)))"
      using head(1) assms(5) by simp
    then show "SpdyInputFilter_Read agb pump rd s brigade mode block readbytes =
          Some (Inr (APR_EGENERAL, brigade @ [EOS],
                     t\<lparr>input := clear_filter (input t), factory := (p, a) # rest\<rparr>, []))"
      using SpdyInputFilter_Read_after_loop[OF assms(1-3) conjunct1[OF h], of agb rd brigade readbytes]
        h head(2)
      by (simp add: Read_from_factory_error)
  }
  {
    assume "Accumulator_HasError b \<and> Accumulator_IsComplete b"
    then have "list_all (\<lambda>e. evictable (snd e)) (front @ [(p, b)])"
      using assms(4) by simp
    then have "RemoveEmptyAccumulators ((front @ [(p, b)]) @ rest) = RemoveEmptyAccumulators rest"
      by (rule RemoveEmptyAccumulators_append)
    then show "Factory_HasError (front @ (p, b) # rest) = Factory_HasError rest"
      by (simp add: Factory_HasError_eq)
  }
qed

theorem errored_incomplete_head_reported_witness:
  "SpdyInputFilter_Read blocked_next_filter blocked_pump Accumulator_Read_spec
     (filter_with
        ([(1, \<lparr>buffer = [], is_complete = True, has_error = False\<rparr>)] @
         (2, \<lparr>buffer = ''GE'', is_complete = False, has_error = True\<rparr>) #
         [(3, \<lparr>buffer = ''GET /b'', is_complete = True, has_error = False\<rparr>)])
        USING_SPDY APR_SUCCESS)
     [] AP_MODE_READBYTES APR_NONBLOCK_READ 100 =
   Some (Inr (APR_EGENERAL, [EOS],
     filter_with
        ((2, \<lparr>buffer = ''GE'', is_complete = False, has_error = True\<rparr>) #
         [(3, \<lparr>buffer = ''GET /b'', is_complete = True, has_error = False\<rparr>)])
        USING_SPDY APR_SUCCESS, [])) \<and>
   SpdyInputFilter_Read blocked_next_filter malformed_frame_pump Accumulator_Read_spec
     (filter_with [] USING_SPDY APR_SUCCESS)
     [] AP_MODE_READBYTES APR_NONBLOCK_READ 100 =
   Some (Inr (APR_EGENERAL, [EOS],
     filter_with [(7, \<lparr>buffer = [], is_complete = False, has_error = True\<rparr>)]
        USING_SPDY APR_SUCCESS, [])) \<and>
   Factory_HasError
     ([(1, \<lparr>buffer = [], is_complete = True, has_error = False\<rparr>)] @
      (2, \<lparr>buffer = ''GE'', is_complete = True, has_error = True\<rparr>) #
      [(3, \<lparr>buffer = ''GET /b'', is_complete = True, has_error = False\<rparr>)]) =
   (False, [(3, \<lparr>buffer = ''GET /b'', is_complete = True, has_error = False\<rparr>)])"
proof -
  note defs = Accumulator_IsComplete_def Accumulator_HasError_def Accumulator_IsEmpty_def
  have 1: "SpdyInputFilter_Read blocked_next_filter blocked_pump Accumulator_Read_spec
     (filter_with
        ([(1, \<lparr>buffer = [], is_complete = True, has_error = False\<rparr>)] @
         (2, \<lparr>buffer = ''GE'', is_complete = False, has_error = True\<rparr>) #
         [(3, \<lparr>buffer = ''GET /b'', is_complete = True, has_error = False\<rparr>)])
        USING_SPDY APR_SUCCESS)
     [] AP_MODE_READBYTES APR_NONBLOCK_READ 100 =
   Some (Inr (APR_EGENERAL, [EOS],
     filter_with
        ((2, \<lparr>buffer = ''GE'', is_complete = False, has_error = True\<rparr>) #
         [(3, \<lparr>buffer = ''GET /b'', is_complete = True, has_error = False\<rparr>)])
        USING_SPDY APR_SUCCESS, []))"
    using errored_incomplete_head_reported
      [where s = "filter_with
        ([(1, \<lparr>buffer = [], is_complete = True, has_error = False\<rparr>)] @
         (2, \<lparr>buffer = ''GE'', is_complete = False, has_error = True\<rparr>) #
         [(3, \<lparr>buffer = ''GET /b'', is_complete = True, has_error = False\<rparr>)])
        USING_SPDY APR_SUCCESS"
         and front = "[(1, \<lparr>buffer = [], is_complete = True, has_error = False\<rparr>)]"
         and a = "\<lparr>buffer = ''GE'', is_complete = False, has_error = True\<rparr>" and p = 2
         and rest = "[(3, \<lparr>buffer = ''GET /b'', is_complete = True, has_error = False\<rparr>)]"
         and mode = AP_MODE_READBYTES and block = APR_NONBLOCK_READ and readbytes = 100
         and brigade = "[]" and agb = blocked_next_filter and pump = blocked_pump
         and rd = Accumulator_Read_spec
         and t = "filter_with [] USING_SPDY APR_SUCCESS", THEN conjunct1]
    by (simp add: filter_with_def defs set_filter_def clear_filter_def)
  let ?before = "(filter_with [] USING_SPDY APR_SUCCESS)
      \<lparr>input := set_filter APR_NONBLOCK_READ (input (filter_with [] USING_SPDY APR_SUCCESS))\<rparr>"
  let ?after = "?before\<lparr>factory := [(7, \<lparr>buffer = [], is_complete = False, has_error = True\<rparr>)]\<rparr>"
  have "pump_loop malformed_frame_pump ?before = pump_loop malformed_frame_pump ?after"
    by (rule pump_loop_progress)
      (simp_all add: filter_with_def Factory_HasError_eq Factory_IsDataAvailable_eq
        malformed_frame_pump_def new_HttpStreamAccumulator_def)
  also have "\<dots> = Some ?after"
    using pump_loop_error[of ?after malformed_frame_pump]
    by (simp add: filter_with_def Factory_HasError_eq defs)
  finally have loop: "pump_loop malformed_frame_pump ?before = Some ?after" .
  have 2: "SpdyInputFilter_Read blocked_next_filter malformed_frame_pump Accumulator_Read_spec
     (filter_with [] USING_SPDY APR_SUCCESS)
     [] AP_MODE_READBYTES APR_NONBLOCK_READ 100 =
   Some (Inr (APR_EGENERAL, [EOS],
     filter_with [(7, \<lparr>buffer = [], is_complete = False, has_error = True\<rparr>)]
        USING_SPDY APR_SUCCESS, []))"
    using loop errored_incomplete_head_reported
      [where s = "filter_with [] USING_SPDY APR_SUCCESS"
         and front = "[]"
         and a = "\<lparr>buffer = [], is_complete = False, has_error = True\<rparr>" and p = 7
         and rest = "[]"
         and mode = AP_MODE_READBYTES and block = APR_NONBLOCK_READ and readbytes = 100
         and brigade = "[]" and agb = blocked_next_filter and pump = malformed_frame_pump
         and rd = Accumulator_Read_spec
         and t = ?after, THEN conjunct2, THEN conjunct1]
    by (simp add: filter_with_def defs set_filter_def clear_filter_def)
  have 3: "Factory_HasError
     ([(1, \<lparr>buffer = [], is_complete = True, has_error = False\<rparr>)] @
      (2, \<lparr>buffer = ''GE'', is_complete = True, has_error = True\<rparr>) #
      [(3, \<lparr>buffer = ''GET /b'', is_complete = True, has_error = False\<rparr>)]) =
   (False, [(3, \<lparr>buffer = ''GET /b'', is_complete = True, has_error = False\<rparr>)])"
    using errored_incomplete_head_reported
      [where s = "filter_with
        ([(1, \<lparr>buffer = [], is_complete = True, has_error = False\<rparr>)] @
         (2, \<lparr>buffer = ''GE'', is_complete = False, has_error = True\<rparr>) #
         [(3, \<lparr>buffer = ''GET /b'', is_complete = True, has_error = False\<rparr>)])
        USING_SPDY APR_SUCCESS"
         and front = "[(1, \<lparr>buffer = [], is_complete = True, has_error = False\<rparr>)]"
         and a = "\<lparr>buffer = ''GE'', is_complete = False, has_error = True\<rparr>" and p = 2
         and b = "\<lparr>buffer = ''GE'', is_complete = True, has_error = True\<rparr>"
         and rest = "[(3, \<lparr>buffer = ''GET /b'', is_complete = True, has_error = False\<rparr>)]"
         and mode = AP_MODE_READBYTES and block = APR_NONBLOCK_READ and readbytes = 100
         and brigade = "[]" and agb = blocked_next_filter and pump = blocked_pump
         and rd = Accumulator_Read_spec
         and t = "filter_with [] USING_SPDY APR_SUCCESS", THEN conjunct2, THEN conjunct2]
    by (simp add: filter_with_def defs Factory_HasError_eq)
  from 1 2 3 show ?thesis by blast
qed

lemma no_data_anywhere:
  assumes "list_all (\<lambda>e. Accumulator_IsEmpty (snd e)) q"
  shows "\<not> fst (Factory_IsDataAvailable q)"
proof (cases "RemoveEmptyAccumulators q")
  case Nil
  then show ?thesis by (simp add: Factory_IsDataAvailable_fst)
next
  case (Cons e rest)
  obtain front where "q = front @ RemoveEmptyAccumulators q"
    using RemoveEmptyAccumulators_split by blast
  then have "e \<in> set q" using Cons by (metis in_set_conv_decomp)
  then have "Accumulator_IsEmpty (snd e)" using assms by (simp add: list_all_iff)
  then show ?thesis using Cons by (cases e) (simp add: Factory_IsDataAvailable_fst)
qed

text \<open>
  C3: when the pipeline is reached and the read delegated to the factory returns
  \<^verbatim>\<open>APR_SUCCESS\<close> and leaves no data available, the filter returns the status of
  the last read from the next filter, as \<^verbatim>\<open>input_\<close> recorded it. That no accumulator
  of the queue holds data is enough for no data to be available. In particular, when
  nothing is available, the pump reports no progress, leaves the queue as it was and
  has recorded would-block, the filter returns would-block and the caller's brigade
  as it was.
\<close>

theorem drained_read_returns_transport_status:
  assumes "npn_state (conn s) = USING_SPDY" and "\<not> aborted (conn s)" and "mode \<noteq> AP_MODE_INIT"
  shows
    "(pump_loop pump (s\<lparr>input := set_filter block (input s)\<rparr>) = Some t \<and>
      \<not> fst (Factory_HasError (factory t)) \<and>
      Factory_Read rd (snd (Factory_HasError (factory t))) brigade mode block readbytes =
        Inr (APR_SUCCESS, q', brigade', dchecks) \<and>
      \<not> fst (Factory_IsDataAvailable q') \<longrightarrow>
        SpdyInputFilter_Read agb pump rd s brigade mode block readbytes =
          Some (Inr (next_filter_rv (input t), brigade',
                     t\<lparr>input := clear_filter (input t),
                        factory := snd (Factory_IsDataAvailable q')\<rparr>,
                     dchecks @ (if is_empty (input t) then [] else [DCHECK_input_IsEmpty])))) \<and>
     (list_all (\<lambda>e. Accumulator_IsEmpty (snd e)) q' \<longrightarrow> \<not> fst (Factory_IsDataAvailable q')) \<and>
     (\<not> fst (Factory_HasError (factory s)) \<and> \<not> fst (Factory_IsDataAvailable (factory s)) \<and>
      pump (s\<lparr>input := set_filter block (input s),
               factory := RemoveEmptyAccumulators (factory s)\<rparr>) = (False, t) \<and>
      factory t = RemoveEmptyAccumulators (factory s) \<and>
      next_filter_rv (input t) = APR_EAGAIN \<longrightarrow>
        SpdyInputFilter_Read agb pump rd s brigade mode block readbytes =
          Some (Inr (APR_EAGAIN, brigade, t\<lparr>input := clear_filter (input t)\<rparr>,
                     if is_empty (input t) then [] else [DCHECK_input_IsEmpty])))"
proof (intro conjI impI)
  assume h: "pump_loop pump (s\<lparr>input := set_filter block (input s)\<rparr>) = Some t \<and>
      \<not> fst (Factory_HasError (factory t)) \<and>
      Factory_Read rd (snd (Factory_HasError (factory t))) brigade mode block readbytes =
        Inr (APR_SUCCESS, q', brigade', dchecks) \<and>
      \<not> fst (Factory_IsDataAvailable q')"
  then have loop: "pump_loop pump (s\<lparr>input := set_filter block (input s)\<rparr>) = Some t"
    by blast
  have "Read_from_factory rd (t\<lparr>input := clear_filter (input t)\<rparr>) brigade mode block readbytes =
      Inr (next_filter_rv (input t), brigade',
           t\<lparr>input := clear_filter (input t), factory := snd (Factory_IsDataAvailable q')\<rparr>,
           dchecks @ (if is_empty (input t) then [] else [DCHECK_input_IsEmpty]))"
  proof -
    obtain q1 where 1: "Factory_HasError (factory t) = (False, q1)"
      using h by (cases "Factory_HasError (factory t)") simp
    then have 2: "Factory_Read rd q1 brigade mode block readbytes =
        Inr (APR_SUCCESS, q', brigade', dchecks)"
      using h by simp
    obtain q3 where 3: "Factory_IsDataAvailable q' = (False, q3)"
      using h by (cases "Factory_IsDataAvailable q'") simp
    show ?thesis
      by (simp add: Read_from_factory_def clear_filter_def 1 2 3)
  qed
  then show "SpdyInputFilter_Read agb pump rd s brigade mode block readbytes =
          Some (Inr (next_filter_rv (input t), brigade',
                     t\<lparr>input := clear_filter (input t),
                        factory := snd (Factory_IsDataAvailable q')\<rparr>,
                     dchecks @ (if is_empty (input t) then [] else [DCHECK_input_IsEmpty])))"
    using SpdyInputFilter_Read_after_loop[OF assms loop] by simp
next
  assume "list_all (\<lambda>e. Accumulator_IsEmpty (snd e)) q'"
  then show "\<not> fst (Factory_IsDataAvailable q')" by (rule no_data_anywhere)
next
  assume h: "\<not> fst (Factory_HasError (factory s)) \<and> \<not> fst (Factory_IsDataAvailable (factory s)) \<and>
      pump (s\<lparr>input := set_filter block (input s),
               factory := RemoveEmptyAccumulators (factory s)\<rparr>) = (False, t) \<and>
      factory t = RemoveEmptyAccumulators (factory s) \<and>
      next_filter_rv (input t) = APR_EAGAIN"
  let ?s1 = "s\<lparr>input := set_filter block (input s)\<rparr>"
  have loop: "pump_loop pump ?s1 = Some t"
    using h by (intro pump_loop_no_progress) simp_all
  have e: "\<not> fst (Factory_HasError (factory t))" and d: "\<not> fst (Factory_IsDataAvailable (factory t))"
    using h by (simp_all add: Factory_HasError_fst Factory_IsDataAvailable_fst RemoveEmptyAccumulators_idem)
  have r: "Factory_Read rd (factory t) brigade mode block readbytes =
      Inr (APR_SUCCESS, factory t, brigade, [])"
    using e d h
    by (auto simp: Factory_Read_eq Factory_HasError_fst Factory_IsDataAvailable_fst
        RemoveEmptyAccumulators_idem split: list.splits)
  have c: "RemoveEmptyAccumulators (factory t) = factory t"
    using h by (simp add: RemoveEmptyAccumulators_idem)
  have "Read_from_factory rd (t\<lparr>input := clear_filter (input t)\<rparr>) brigade mode block readbytes =
      Inr (APR_EAGAIN, brigade, t\<lparr>input := clear_filter (input t)\<rparr>,
           if is_empty (input t) then [] else [DCHECK_input_IsEmpty])"
    using e d r c h
    by (simp add: Read_from_factory_def Factory_HasError_eq Factory_IsDataAvailable_eq clear_filter_def)
  then show "SpdyInputFilter_Read agb pump rd s brigade mode block readbytes =
          Some (Inr (APR_EAGAIN, brigade, t\<lparr>input := clear_filter (input t)\<rparr>,
                     if is_empty (input t) then [] else [DCHECK_input_IsEmpty]))"
    using SpdyInputFilter_Read_after_loop[OF assms loop] by simp
qed

theorem drained_read_returns_transport_status_witness:
  "SpdyInputFilter_Read blocked_next_filter blocked_pump Accumulator_Read_spec
     (filter_with [(1, \<lparr>buffer = ''GET /a'', is_complete = False, has_error = False\<rparr>)]
        USING_SPDY APR_EAGAIN)
     [] AP_MODE_READBYTES APR_NONBLOCK_READ 100 =
   Some (Inr (APR_EAGAIN, [DATA ''GET /a''],
     filter_with [(1, \<lparr>buffer = [], is_complete = False, has_error = False\<rparr>)]
        USING_SPDY APR_EAGAIN, [])) \<and>
   SpdyInputFilter_Read blocked_next_filter blocked_pump Accumulator_Read_spec
     (filter_with [(1, \<lparr>buffer = [], is_complete = False, has_error = False\<rparr>)]
        USING_SPDY APR_SUCCESS)
     [] AP_MODE_READBYTES APR_NONBLOCK_READ 100 =
   Some (Inr (APR_EAGAIN, [],
     filter_with [(1, \<lparr>buffer = [], is_complete = False, has_error = False\<rparr>)]
        USING_SPDY APR_EAGAIN, []))"
proof -
  note defs = Accumulator_IsComplete_def Accumulator_HasError_def Accumulator_IsEmpty_def
  let ?q = "[(1::nat, \<lparr>buffer = ''GET /a'', is_complete = False, has_error = False\<rparr>)]"
  let ?q' = "[(1::nat, \<lparr>buffer = [], is_complete = False, has_error = False\<rparr>)]"
  let ?before = "(filter_with ?q USING_SPDY APR_EAGAIN)
      \<lparr>input := set_filter APR_NONBLOCK_READ (input (filter_with ?q USING_SPDY APR_EAGAIN))\<rparr>"
  have loop: "pump_loop blocked_pump ?before = Some (?before\<lparr>factory := RemoveEmptyAccumulators (factory ?before)\<rparr>)"
    by (rule pump_loop_available)
      (simp add: filter_with_def Factory_IsDataAvailable_eq defs)
  have 1: "SpdyInputFilter_Read blocked_next_filter blocked_pump Accumulator_Read_spec
     (filter_with ?q USING_SPDY APR_EAGAIN) [] AP_MODE_READBYTES APR_NONBLOCK_READ 100 =
   Some (Inr (APR_EAGAIN, [DATA ''GET /a''], filter_with ?q' USING_SPDY APR_EAGAIN, []))"
    using loop drained_read_returns_transport_status
      [where s = "filter_with ?q USING_SPDY APR_EAGAIN"
         and mode = AP_MODE_READBYTES and block = APR_NONBLOCK_READ and readbytes = 100
         and brigade = "[]" and agb = blocked_next_filter and pump = blocked_pump
         and rd = Accumulator_Read_spec
         and t = "?before\<lparr>factory := RemoveEmptyAccumulators (factory ?before)\<rparr>"
         and q' = ?q' and brigade' = "[DATA ''GET /a'']" and dchecks = "[]"]
    by (simp add: filter_with_def defs set_filter_def clear_filter_def Factory_HasError_eq
        Factory_IsDataAvailable_eq Factory_Read_eq Accumulator_Read_spec_def)
  have 2: "SpdyInputFilter_Read blocked_next_filter blocked_pump Accumulator_Read_spec
     (filter_with ?q' USING_SPDY APR_SUCCESS) [] AP_MODE_READBYTES APR_NONBLOCK_READ 100 =
   Some (Inr (APR_EAGAIN, [], filter_with ?q' USING_SPDY APR_EAGAIN, []))"
    using drained_read_returns_transport_status
      [where s = "filter_with ?q' USING_SPDY APR_SUCCESS"
         and mode = AP_MODE_READBYTES and block = APR_NONBLOCK_READ and readbytes = 100
         and brigade = "[]" and agb = blocked_next_filter and pump = blocked_pump
         and rd = Accumulator_Read_spec
         and t = "\<lparr>input = \<lparr>filter_block = Some APR_NONBLOCK_READ, next_filter_rv = APR_EAGAIN,
                               is_empty = True\<rparr>,
                     factory = ?q', temp_brigade = [],
                     conn = \<lparr>npn_state = USING_SPDY, aborted = False, next_filter = ()\<rparr>\<rparr>"
         and q' = ?q' and brigade' = "[]" and dchecks = "[]"]
    by (simp add: filter_with_def defs set_filter_def clear_filter_def Factory_HasError_eq
        Factory_IsDataAvailable_eq blocked_pump_def)
  from 1 2 show ?thesis by blast
qed

section \<open>Head-of-line ordering\<close>

text \<open>
  C1: head-of-line ordering. When the accumulators created before \<^verbatim>\<open>a\<close> are all
  complete and removed by the cleanup, and \<^verbatim>\<open>a\<close> is not removed, \<^verbatim>\<open>Read\<close> of the factory
  calls the read of \<^verbatim>\<open>a\<close> or of no accumulator: what it returns is what it returns
  on the queue holding \<^verbatim>\<open>a\<close> alone, whatever the accumulators created after \<^verbatim>\<open>a\<close>
  have buffered. While \<^verbatim>\<open>a\<close> is empty and not complete, every read returns the
  caller's brigade as it was. On a queue the cleanup empties nothing is read. In
  \<^verbatim>\<open>SpdyInputFilter::Read\<close>, with the queue the pump loop leaves, the brigade returned
  is the caller's with an end-of-stream bucket, the caller's as it was, or the one the
  read of \<^verbatim>\<open>a\<close> returned.
\<close>

theorem Read_delegates_to_oldest_only:
  "(list_all (\<lambda>e. Accumulator_IsComplete (snd e) \<and>
                (Accumulator_HasError (snd e) \<or> Accumulator_IsEmpty (snd e))) front \<and>
    \<not> (Accumulator_IsComplete a \<and> (Accumulator_HasError a \<or> Accumulator_IsEmpty a)) \<longrightarrow>
      Factory_Read rd (front @ (p, a) # rest) brigade mode block readbytes =
        (if Accumulator_HasError a then Inr (APR_EGENERAL, (p, a) # rest, brigade, [DCHECK_false])
         else if Accumulator_IsEmpty a then Inr (APR_SUCCESS, (p, a) # rest, brigade, [])
         else (case rd a brigade mode block readbytes of
                 (rv, a', brigade') \<Rightarrow>
                   Inr (rv, RemoveEmptyAccumulators ((p, a') # rest), brigade', []))) \<and>
      Factory_Reads rd (front @ (p, a) # rest) [(brigade, mode, block, readbytes)] =
        Factory_Reads rd [(p, a)] [(brigade, mode, block, readbytes)]) \<and>
   (list_all (\<lambda>e. Accumulator_IsComplete (snd e) \<and>
                (Accumulator_HasError (snd e) \<or> Accumulator_IsEmpty (snd e))) front \<and>
    \<not> Accumulator_IsComplete a \<and> Accumulator_IsEmpty a \<and> \<not> Accumulator_HasError a \<longrightarrow>
      Factory_Reads rd (front @ (p, a) # rest) calls =
        map (\<lambda>(brigade, mode, block, readbytes). Inr (APR_SUCCESS, brigade, [])) calls) \<and>
   (RemoveEmptyAccumulators q = [] \<longrightarrow>
      Factory_Read rd q brigade mode block readbytes = Inr (APR_SUCCESS, [], brigade, [])) \<and>
   (npn_state (conn s) = USING_SPDY \<and> \<not> aborted (conn s) \<and> mode \<noteq> AP_MODE_INIT \<and>
    pump_loop pump (s\<lparr>input := set_filter block (input s)\<rparr>) = Some t \<and>
    factory t = front @ (p, a) # rest \<and>
    list_all (\<lambda>e. Accumulator_IsComplete (snd e) \<and>
                (Accumulator_HasError (snd e) \<or> Accumulator_IsEmpty (snd e))) front \<and>
    \<not> (Accumulator_IsComplete a \<and> (Accumulator_HasError a \<or> Accumulator_IsEmpty a)) \<longrightarrow>
      (\<exists>rv brigade' s' dchecks.
         SpdyInputFilter_Read agb pump rd s brigade mode block readbytes =
           Some (Inr (rv, brigade', s', dchecks)) \<and>
         (brigade' = brigade @ [EOS] \<or> brigade' = brigade \<or>
          brigade' = snd (snd (rd a brigade mode block readbytes)))))"
proof (intro conjI impI)
  assume h: "list_all (\<lambda>e. evictable (snd e)) front \<and> \<not> evictable a"
  then have f: "list_all (\<lambda>e. evictable (snd e)) front" and a: "\<not> evictable a"
    by blast+
  show "Factory_Read rd (front @ (p, a) # rest) brigade mode block readbytes =
        (if Accumulator_HasError a then Inr (APR_EGENERAL, (p, a) # rest, brigade, [DCHECK_false])
         else if Accumulator_IsEmpty a then Inr (APR_SUCCESS, (p, a) # rest, brigade, [])
         else (case rd a brigade mode block readbytes of
                 (rv, a', brigade') \<Rightarrow>
                   Inr (rv, RemoveEmptyAccumulators ((p, a') # rest), brigade', [])))"
    using f a by (rule Factory_Read_head)
  have "list_all (\<lambda>e. evictable (snd e)) []" by simp
  from Factory_Read_head[OF this a, of rd p "[]" brigade mode block readbytes]
    Factory_Read_head[OF f a, of rd p rest brigade mode block readbytes]
  show "Factory_Reads rd (front @ (p, a) # rest) [(brigade, mode, block, readbytes)] =
        Factory_Reads rd [(p, a)] [(brigade, mode, block, readbytes)]"
    by (simp split: prod.splits)
next
  assume h: "list_all (\<lambda>e. evictable (snd e)) front \<and>
    \<not> Accumulator_IsComplete a \<and> Accumulator_IsEmpty a \<and> \<not> Accumulator_HasError a"
  then have f: "list_all (\<lambda>e. evictable (snd e)) front" by blast
  have "Factory_Reads rd (front @ (p, a) # rest) calls =
      Factory_Reads rd (RemoveEmptyAccumulators (front @ (p, a) # rest)) calls"
    by (simp add: Factory_Reads_cleaned)
  also have "RemoveEmptyAccumulators (front @ (p, a) # rest) = (p, a) # rest"
    using f h by (intro RemoveEmptyAccumulators_head) simp_all
  finally show "Factory_Reads rd (front @ (p, a) # rest) calls =
        map (\<lambda>(brigade, mode, block, readbytes). Inr (APR_SUCCESS, brigade, [])) calls"
    using h by (simp add: Factory_Reads_stalled)
next
  assume "RemoveEmptyAccumulators q = []"
  then show "Factory_Read rd q brigade mode block readbytes = Inr (APR_SUCCESS, [], brigade, [])"
    by (simp add: Factory_Read_eq)
next
  assume h: "npn_state (conn s) = USING_SPDY \<and> \<not> aborted (conn s) \<and> mode \<noteq> AP_MODE_INIT \<and>
    pump_loop pump (s\<lparr>input := set_filter block (input s)\<rparr>) = Some t \<and>
    factory t = front @ (p, a) # rest \<and>
    list_all (\<lambda>e. evictable (snd e)) front \<and> \<not> evictable a"
  then have f: "list_all (\<lambda>e. evictable (snd e)) front" and a: "\<not> evictable a"
    and q: "factory t = front @ (p, a) # rest"
    by blast+
  let ?t = "t\<lparr>input := clear_filter (input t)\<rparr>"
  have read: "SpdyInputFilter_Read agb pump rd s brigade mode block readbytes =
      Some (Read_from_factory rd ?t brigade mode block readbytes)"
    using h by (intro SpdyInputFilter_Read_after_loop) blast+
  have e: "Factory_HasError (factory ?t) = (Accumulator_HasError a, (p, a) # rest)"
    using Factory_HasError_head[OF f a, of p rest] q by simp
  have keep: "list_all (\<lambda>e. evictable (snd e)) []" by simp
  note r = Factory_Read_head[OF keep a, of rd p rest brigade mode block readbytes]
  obtain rv a' brigade' where rd: "rd a brigade mode block readbytes = (rv, a', brigade')"
    by (cases "rd a brigade mode block readbytes")
  obtain avail q' where d:
    "Factory_IsDataAvailable (RemoveEmptyAccumulators ((p, a') # rest)) = (avail, q')"
    by (cases "Factory_IsDataAvailable (RemoveEmptyAccumulators ((p, a') # rest))")
  obtain avail0 q0 where d0: "Factory_IsDataAvailable ((p, a) # rest) = (avail0, q0)"
    by (cases "Factory_IsDataAvailable ((p, a) # rest)")
  show "\<exists>rv brigade' s' dchecks.
         SpdyInputFilter_Read agb pump rd s brigade mode block readbytes =
           Some (Inr (rv, brigade', s', dchecks)) \<and>
         (brigade' = brigade @ [EOS] \<or> brigade' = brigade \<or>
          brigade' = snd (snd (rd a brigade mode block readbytes)))"
    using read e r rd d d0 by (simp add: Read_from_factory_def)
qed

theorem Read_delegates_to_oldest_only_witness:
  "Factory_Read Accumulator_Read_spec
     ([(1, \<lparr>buffer = [], is_complete = True, has_error = False\<rparr>)] @
      (2, \<lparr>buffer = ''GET /a'', is_complete = False, has_error = False\<rparr>) #
      [(3, \<lparr>buffer = ''GET /b'', is_complete = True, has_error = False\<rparr>)])
     [] AP_MODE_READBYTES APR_NONBLOCK_READ 100 =
   Inr (APR_SUCCESS,
        [(2, \<lparr>buffer = [], is_complete = False, has_error = False\<rparr>),
         (3, \<lparr>buffer = ''GET /b'', is_complete = True, has_error = False\<rparr>)],
        [DATA ''GET /a''], []) \<and>
   Factory_Reads Accumulator_Read_spec
     ([(1, \<lparr>buffer = [], is_complete = True, has_error = False\<rparr>)] @
      (2, \<lparr>buffer = [], is_complete = False, has_error = False\<rparr>) #
      [(3, \<lparr>buffer = ''GET /b'', is_complete = True, has_error = False\<rparr>)])
     [([], AP_MODE_READBYTES, APR_NONBLOCK_READ, 100),
      ([], AP_MODE_GETLINE, APR_BLOCK_READ, 0)] =
   [Inr (APR_SUCCESS, [], []), Inr (APR_SUCCESS, [], [])] \<and>
   Factory_Read Accumulator_Read_spec
     [(1, \<lparr>buffer = [], is_complete = True, has_error = False\<rparr>)]
     [] AP_MODE_READBYTES APR_NONBLOCK_READ 100 =
   Inr (APR_SUCCESS, [], [], []) \<and>
   (\<exists>rv brigade' s' dchecks.
     SpdyInputFilter_Read blocked_next_filter blocked_pump Accumulator_Read_spec
       (filter_with
          ([(1, \<lparr>buffer = [], is_complete = True, has_error = False\<rparr>)] @
           (2, \<lparr>buffer = ''GET /a'', is_complete = False, has_error = False\<rparr>) #
           [(3, \<lparr>buffer = ''GET /b'', is_complete = True, has_error = False\<rparr>)])
          USING_SPDY APR_SUCCESS)
       [] AP_MODE_READBYTES APR_NONBLOCK_READ 100 = Some (Inr (rv, brigade', s', dchecks)) \<and>
     (brigade' = [EOS] \<or> brigade' = [] \<or> brigade' = [DATA ''GET /a'']))"
proof -
  note defs = Accumulator_IsComplete_def Accumulator_HasError_def Accumulator_IsEmpty_def
    Accumulator_Read_spec_def
  have 1: "Factory_Read Accumulator_Read_spec
     ([(1, \<lparr>buffer = [], is_complete = True, has_error = False\<rparr>)] @
      (2, \<lparr>buffer = ''GET /a'', is_complete = False, has_error = False\<rparr>) #
      [(3, \<lparr>buffer = ''GET /b'', is_complete = True, has_error = False\<rparr>)])
     [] AP_MODE_READBYTES APR_NONBLOCK_READ 100 =
   Inr (APR_SUCCESS,
        [(2, \<lparr>buffer = [], is_complete = False, has_error = False\<rparr>),
         (3, \<lparr>buffer = ''GET /b'', is_complete = True, has_error = False\<rparr>)],
        [DATA ''GET /a''], [])"
    using Read_delegates_to_oldest_only
      [where front = "[(1, \<lparr>buffer = [], is_complete = True, has_error = False\<rparr>)]"
         and a = "\<lparr>buffer = ''GET /a'', is_complete = False, has_error = False\<rparr>"
         and p = 2
         and rest = "[(3, \<lparr>buffer = ''GET /b'', is_complete = True, has_error = False\<rparr>)]"
         and rd = Accumulator_Read_spec and brigade = "[]" and mode = AP_MODE_READBYTES
         and block = APR_NONBLOCK_READ and readbytes = 100 and q = "[]" and calls = "[]",
       THEN conjunct1]
    by (simp add: defs del: Factory_Reads.simps)
  have 2: "Factory_Reads Accumulator_Read_spec
     ([(1, \<lparr>buffer = [], is_complete = True, has_error = False\<rparr>)] @
      (2, \<lparr>buffer = [], is_complete = False, has_error = False\<rparr>) #
      [(3, \<lparr>buffer = ''GET /b'', is_complete = True, has_error = False\<rparr>)])
     [([], AP_MODE_READBYTES, APR_NONBLOCK_READ, 100),
      ([], AP_MODE_GETLINE, APR_BLOCK_READ, 0)] =
   [Inr (APR_SUCCESS, [], []), Inr (APR_SUCCESS, [], [])]"
    using Read_delegates_to_oldest_only
      [where front = "[(1, \<lparr>buffer = [], is_complete = True, has_error = False\<rparr>)]"
         and a = "\<lparr>buffer = [], is_complete = False, has_error = False\<rparr>"
         and p = 2
         and rest = "[(3, \<lparr>buffer = ''GET /b'', is_complete = True, has_error = False\<rparr>)]"
         and rd = Accumulator_Read_spec and brigade = "[]" and mode = AP_MODE_READBYTES
         and block = APR_NONBLOCK_READ and readbytes = 100 and q = "[]"
         and calls = "[([], AP_MODE_READBYTES, APR_NONBLOCK_READ, 100),
                       ([], AP_MODE_GETLINE, APR_BLOCK_READ, 0)]",
       THEN conjunct2, THEN conjunct1]
    by (simp add: defs del: Factory_Reads.simps)
  have 3: "Factory_Read Accumulator_Read_spec
     [(1, \<lparr>buffer = [], is_complete = True, has_error = False\<rparr>)]
     [] AP_MODE_READBYTES APR_NONBLOCK_READ 100 =
   Inr (APR_SUCCESS, [], [], [])"
    using Read_delegates_to_oldest_only
      [where front = "[]"
         and a = "\<lparr>buffer = [], is_complete = False, has_error = False\<rparr>"
         and p = 2 and rest = "[]"
         and rd = Accumulator_Read_spec and brigade = "[]" and mode = AP_MODE_READBYTES
         and block = APR_NONBLOCK_READ and readbytes = 100
         and q = "[(1, \<lparr>buffer = [], is_complete = True, has_error = False\<rparr>)]"
         and calls = "[]", THEN conjunct2, THEN conjunct2, THEN conjunct1]
    by (simp add: defs del: Factory_Reads.simps)
  let ?q = "[(1::nat, \<lparr>buffer = [], is_complete = True, has_error = False\<rparr>)] @
      (2, \<lparr>buffer = ''GET /a'', is_complete = False, has_error = False\<rparr>) #
      [(3, \<lparr>buffer = ''GET /b'', is_complete = True, has_error = False\<rparr>)]"
  let ?before = "(filter_with ?q USING_SPDY APR_SUCCESS)
      \<lparr>input := set_filter APR_NONBLOCK_READ (input (filter_with ?q USING_SPDY APR_SUCCESS))\<rparr>"
  let ?after = "?before\<lparr>factory := RemoveEmptyAccumulators (factory ?before)\<rparr>"
  have loop: "pump_loop blocked_pump ?before = Some ?after"
    by (rule pump_loop_available) (simp add: filter_with_def Factory_IsDataAvailable_eq defs)
  have 4: "\<exists>rv brigade' s' dchecks.
     SpdyInputFilter_Read blocked_next_filter blocked_pump Accumulator_Read_spec
       (filter_with
          ([(1, \<lparr>buffer = [], is_complete = True, has_error = False\<rparr>)] @
           (2, \<lparr>buffer = ''GET /a'', is_complete = False, has_error = False\<rparr>) #
           [(3, \<lparr>buffer = ''GET /b'', is_complete = True, has_error = False\<rparr>)])
          USING_SPDY APR_SUCCESS)
       [] AP_MODE_READBYTES APR_NONBLOCK_READ 100 = Some (Inr (rv, brigade', s', dchecks)) \<and>
     (brigade' = [EOS] \<or> brigade' = [] \<or> brigade' = [DATA ''GET /a''])"
    using loop Read_delegates_to_oldest_only
      [where front = "[]"
         and a = "\<lparr>buffer = ''GET /a'', is_complete = False, has_error = False\<rparr>"
         and p = 2
         and rest = "[(3, \<lparr>buffer = ''GET /b'', is_complete = True, has_error = False\<rparr>)]"
         and rd = Accumulator_Read_spec and brigade = "[]" and mode = AP_MODE_READBYTES
         and block = APR_NONBLOCK_READ and readbytes = 100 and q = "[]" and calls = "[]"
         and s = "filter_with ?q USING_SPDY APR_SUCCESS" and t = ?after
         and pump = blocked_pump and agb = blocked_next_filter,
       THEN conjunct2, THEN conjunct2, THEN conjunct2]
    by (simp add: defs filter_with_def set_filter_def)
  from 1 2 3 4 show ?thesis by blast
qed

section \<open>Protocol detection\<close>

lemma SpdyInputFilter_Read_not_using_spdy:
  assumes "npn_state (conn s) = NOT_USING_SPDY"
  shows "SpdyInputFilter_Read agb pump rd s brigade mode block readbytes =
    (case agb (conn s) brigade mode block readbytes of
       (rv, brigade', c) \<Rightarrow> Some (Inr (rv, brigade', s\<lparr>conn := c\<rparr>, [])))"
  using assms by (simp add: SpdyInputFilter_Read_def npn_detection_def)

lemma SpdyInputFilter_Reads_not_using_spdy:
  assumes env: "\<And>c brigade mode block readbytes.
      npn_state c = NOT_USING_SPDY \<Longrightarrow>
      npn_state (snd (snd (agb c brigade mode block readbytes))) = NOT_USING_SPDY"
    and "npn_state (conn s) = NOT_USING_SPDY"
  shows "SpdyInputFilter_Reads agb pump rd s calls =
      Some (map (\<lambda>(rv, brigade). Inr (rv, brigade, [])) (fst (next_filter_reads agb (conn s) calls)),
            s\<lparr>conn := snd (next_filter_reads agb (conn s) calls)\<rparr>) \<and>
    npn_state (snd (next_filter_reads agb (conn s) calls)) = NOT_USING_SPDY"
  using assms(2)
proof (induction calls arbitrary: s)
  case Nil
  then show ?case by simp
next
  case (Cons call calls)
  obtain brigade mode block readbytes where call: "call = (brigade, mode, block, readbytes)"
    by (cases call)
  obtain rv brigade' c where r: "agb (conn s) brigade mode block readbytes = (rv, brigade', c)"
    by (cases "agb (conn s) brigade mode block readbytes")
  have c: "npn_state c = NOT_USING_SPDY"
    using env[OF Cons.prems, of brigade mode block readbytes] r by simp
  have read: "SpdyInputFilter_Read agb pump rd s brigade mode block readbytes =
      Some (Inr (rv, brigade', s\<lparr>conn := c\<rparr>, []))"
    using Cons.prems r by (simp add: SpdyInputFilter_Read_not_using_spdy)
  have "npn_state (conn (s\<lparr>conn := c\<rparr>)) = NOT_USING_SPDY" using c by simp
  from Cons.IH[OF this] show ?case
    using call r read by (simp add: case_prod_beta)
qed

text \<open>
  C7: once the NPN state is \<^verbatim>\<open>NOT_USING_SPDY\<close>, a read is the read of the next filter
  with the caller's arguments: the result does not depend on the pump or on the
  accumulators, and the members of the filter stay as they were. The filter itself
  never writes the NPN state here; when the next filter (the NPN callback it may run)
  does not change a state that is \<^verbatim>\<open>NOT_USING_SPDY\<close>, every read of a sequence of reads
  is such a pass-through and the state is \<^verbatim>\<open>NOT_USING_SPDY\<close> at the end.
\<close>

theorem not_using_spdy_is_pass_through:
  assumes "npn_state (conn s) = NOT_USING_SPDY"
  shows
    "SpdyInputFilter_Read agb pump rd s brigade mode block readbytes =
       (case agb (conn s) brigade mode block readbytes of
          (rv, brigade', c) \<Rightarrow> Some (Inr (rv, brigade', s\<lparr>conn := c\<rparr>, []))) \<and>
     ((\<forall>c brigade mode block readbytes.
         npn_state c = NOT_USING_SPDY \<longrightarrow>
         npn_state (snd (snd (agb c brigade mode block readbytes))) = NOT_USING_SPDY) \<longrightarrow>
        SpdyInputFilter_Reads agb pump rd s calls =
          Some (map (\<lambda>(rv, brigade). Inr (rv, brigade, []))
                  (fst (next_filter_reads agb (conn s) calls)),
                s\<lparr>conn := snd (next_filter_reads agb (conn s) calls)\<rparr>) \<and>
        npn_state (snd (next_filter_reads agb (conn s) calls)) = NOT_USING_SPDY)"
proof (intro conjI impI)
  show "SpdyInputFilter_Read agb pump rd s brigade mode block readbytes =
       (case agb (conn s) brigade mode block readbytes of
          (rv, brigade', c) \<Rightarrow> Some (Inr (rv, brigade', s\<lparr>conn := c\<rparr>, [])))"
    using assms by (rule SpdyInputFilter_Read_not_using_spdy)
next
  assume env: "\<forall>c brigade mode block readbytes.
         npn_state c = NOT_USING_SPDY \<longrightarrow>
         npn_state (snd (snd (agb c brigade mode block readbytes))) = NOT_USING_SPDY"
  have r: "SpdyInputFilter_Reads agb pump rd s calls =
      Some (map (\<lambda>(rv, brigade). Inr (rv, brigade, [])) (fst (next_filter_reads agb (conn s) calls)),
            s\<lparr>conn := snd (next_filter_reads agb (conn s) calls)\<rparr>) \<and>
    npn_state (snd (next_filter_reads agb (conn s) calls)) = NOT_USING_SPDY"
    using env assms by (intro SpdyInputFilter_Reads_not_using_spdy) blast+
  from r show "SpdyInputFilter_Reads agb pump rd s calls =
          Some (map (\<lambda>(rv, brigade). Inr (rv, brigade, []))
                  (fst (next_filter_reads agb (conn s) calls)),
                s\<lparr>conn := snd (next_filter_reads agb (conn s) calls)\<rparr>)"
    by blast
  from r show "npn_state (snd (next_filter_reads agb (conn s) calls)) = NOT_USING_SPDY"
    by blast
qed

theorem not_using_spdy_is_pass_through_witness:
  "SpdyInputFilter_Read plain_next_filter malformed_frame_pump Accumulator_Read_spec
     (filter_with [(1, \<lparr>buffer = ''GET /a'', is_complete = False, has_error = False\<rparr>)]
        NOT_USING_SPDY APR_SUCCESS)
     [] AP_MODE_READBYTES APR_NONBLOCK_READ 100 =
   Some (Inr (APR_SUCCESS, [DATA ''GET / HTTP/1.1''],
     filter_with [(1, \<lparr>buffer = ''GET /a'', is_complete = False, has_error = False\<rparr>)]
        NOT_USING_SPDY APR_SUCCESS, [])) \<and>
   SpdyInputFilter_Reads plain_next_filter malformed_frame_pump Accumulator_Read_spec
     (filter_with [(1, \<lparr>buffer = ''GET /a'', is_complete = False, has_error = False\<rparr>)]
        NOT_USING_SPDY APR_SUCCESS)
     [([], AP_MODE_READBYTES, APR_NONBLOCK_READ, 100), ([], AP_MODE_GETLINE, APR_BLOCK_READ, 0)] =
   Some ([Inr (APR_SUCCESS, [DATA ''GET / HTTP/1.1''], []),
          Inr (APR_SUCCESS, [DATA ''GET / HTTP/1.1''], [])],
     filter_with [(1, \<lparr>buffer = ''GET /a'', is_complete = False, has_error = False\<rparr>)]
        NOT_USING_SPDY APR_SUCCESS)"
  using not_using_spdy_is_pass_through
    [where s = "filter_with [(1, \<lparr>buffer = ''GET /a'', is_complete = False, has_error = False\<rparr>)]
        NOT_USING_SPDY APR_SUCCESS"
       and agb = plain_next_filter and pump = malformed_frame_pump and rd = Accumulator_Read_spec
       and brigade = "[]" and mode = AP_MODE_READBYTES and block = APR_NONBLOCK_READ
       and readbytes = 100
       and calls = "[([], AP_MODE_READBYTES, APR_NONBLOCK_READ, 100),
                     ([], AP_MODE_GETLINE, APR_BLOCK_READ, 0)]"]
  by (simp add: filter_with_def plain_next_filter_def del: SpdyInputFilter_Reads.simps)

text \<open>
  C6 as stated fails: the NPN state is \<^verbatim>\<open>NOT_DONE_YET\<close>, the handshake completes
  during the probe and the probe then fails. The read returns the failure status, and
  the state is \<^verbatim>\<open>USING_SPDY\<close>, not unchanged: the next call makes no probe.
\<close>

theorem failed_probe_state_determined_counterexample:
  "npn_state (conn (filter_with [] NOT_DONE_YET APR_SUCCESS)) = NOT_DONE_YET \<and>
   SpdyInputFilter_Read handshake_then_eof_next_filter blocked_pump Accumulator_Read_spec
     (filter_with [] NOT_DONE_YET APR_SUCCESS) [] AP_MODE_READBYTES APR_NONBLOCK_READ 100 =
   Some (Inr (APR_EOF, [], filter_with [] USING_SPDY APR_SUCCESS, [])) \<and>
   APR_EOF \<noteq> APR_SUCCESS \<and>
   npn_state (conn (filter_with [] USING_SPDY APR_SUCCESS)) \<noteq> NOT_DONE_YET \<and>
   npn_detection handshake_then_eof_next_filter (filter_with [] USING_SPDY APR_SUCCESS) =
     (None, filter_with [] USING_SPDY APR_SUCCESS)"
  by (simp add: SpdyInputFilter_Read_def npn_detection_def filter_with_def
      handshake_then_eof_next_filter_def APR_EOF_def APR_SUCCESS_def)

text \<open>
  C6, amended: while the NPN state is \<^verbatim>\<open>NOT_DONE_YET\<close>, a read first makes a
  speculative blocking read of one byte from the next filter into \<^verbatim>\<open>temp_brigade_\<close>.
  When that read fails, its status is returned, the caller's brigade is untouched and
  the filter writes no NPN state: the state is the one the probe left. When the probe
  left it \<^verbatim>\<open>NOT_DONE_YET\<close>, it is unchanged and the next call makes the probe again.
  When the probe succeeds and the NPN state is still \<^verbatim>\<open>NOT_DONE_YET\<close>, the state is
  set to \<^verbatim>\<open>NOT_USING_SPDY\<close> and the read is passed on to the next filter.
\<close>

theorem npn_probe_while_undetermined:
  assumes "npn_state (conn s) = NOT_DONE_YET"
    and "agb (conn s) (temp_brigade s) AP_MODE_SPECULATIVE APR_BLOCK_READ 1 = (rv, temp, c)"
  shows
    "(rv \<noteq> APR_SUCCESS \<longrightarrow>
        SpdyInputFilter_Read agb pump rd s brigade mode block readbytes =
          Some (Inr (rv, brigade, s\<lparr>temp_brigade := [], conn := c\<rparr>, [])) \<and>
        npn_state (conn (s\<lparr>temp_brigade := [], conn := c\<rparr>)) = npn_state c) \<and>
     (rv \<noteq> APR_SUCCESS \<and> npn_state c = NOT_DONE_YET \<longrightarrow>
        npn_state (conn (s\<lparr>temp_brigade := [], conn := c\<rparr>)) = npn_state (conn s) \<and>
        npn_detection agb (s\<lparr>temp_brigade := [], conn := c\<rparr>) =
          (case agb c [] AP_MODE_SPECULATIVE APR_BLOCK_READ 1 of
             (rv', temp', c') \<Rightarrow>
               if rv' \<noteq> APR_SUCCESS then (Some rv', s\<lparr>temp_brigade := [], conn := c'\<rparr>)
               else if npn_state c' = NOT_DONE_YET then
                 (None, s\<lparr>temp_brigade := [], conn := c'\<lparr>npn_state := NOT_USING_SPDY\<rparr>\<rparr>)
               else (None, s\<lparr>temp_brigade := [], conn := c'\<rparr>))) \<and>
     (rv = APR_SUCCESS \<and> npn_state c = NOT_DONE_YET \<longrightarrow>
        SpdyInputFilter_Read agb pump rd s brigade mode block readbytes =
          (case agb (c\<lparr>npn_state := NOT_USING_SPDY\<rparr>) brigade mode block readbytes of
             (rv', brigade', c') \<Rightarrow>
               Some (Inr (rv', brigade', s\<lparr>temp_brigade := [], conn := c'\<rparr>, [])))) \<and>
     npn_detection agb s =
       (if rv \<noteq> APR_SUCCESS then (Some rv, s\<lparr>temp_brigade := [], conn := c\<rparr>)
        else if npn_state c = NOT_DONE_YET
          then (None, s\<lparr>temp_brigade := [], conn := c\<lparr>npn_state := NOT_USING_SPDY\<rparr>\<rparr>)
          else (None, s\<lparr>temp_brigade := [], conn := c\<rparr>))"
proof (intro conjI impI)
  assume "rv \<noteq> APR_SUCCESS"
  then show "SpdyInputFilter_Read agb pump rd s brigade mode block readbytes =
          Some (Inr (rv, brigade, s\<lparr>temp_brigade := [], conn := c\<rparr>, []))"
    using assms by (simp add: SpdyInputFilter_Read_def npn_detection_def)
next
  show "npn_state (conn (s\<lparr>temp_brigade := [], conn := c\<rparr>)) = npn_state c"
    by simp
next
  assume "rv \<noteq> APR_SUCCESS \<and> npn_state c = NOT_DONE_YET"
  then show "npn_state (conn (s\<lparr>temp_brigade := [], conn := c\<rparr>)) = npn_state (conn s)"
    using assms(1) by simp
next
  assume "rv \<noteq> APR_SUCCESS \<and> npn_state c = NOT_DONE_YET"
  then show "npn_detection agb (s\<lparr>temp_brigade := [], conn := c\<rparr>) =
          (case agb c [] AP_MODE_SPECULATIVE APR_BLOCK_READ 1 of
             (rv', temp', c') \<Rightarrow>
               if rv' \<noteq> APR_SUCCESS then (Some rv', s\<lparr>temp_brigade := [], conn := c'\<rparr>)
               else if npn_state c' = NOT_DONE_YET then
                 (None, s\<lparr>temp_brigade := [], conn := c'\<lparr>npn_state := NOT_USING_SPDY\<rparr>\<rparr>)
               else (None, s\<lparr>temp_brigade := [], conn := c'\<rparr>))"
    by (simp add: npn_detection_def split: prod.splits)
next
  assume "rv = APR_SUCCESS \<and> npn_state c = NOT_DONE_YET"
  then show "SpdyInputFilter_Read agb pump rd s brigade mode block readbytes =
          (case agb (c\<lparr>npn_state := NOT_USING_SPDY\<rparr>) brigade mode block readbytes of
             (rv', brigade', c') \<Rightarrow>
               Some (Inr (rv', brigade', s\<lparr>temp_brigade := [], conn := c'\<rparr>, [])))"
    using assms by (simp add: SpdyInputFilter_Read_def npn_detection_def split: prod.splits)
next
  show "npn_detection agb s =
       (if rv \<noteq> APR_SUCCESS then (Some rv, s\<lparr>temp_brigade := [], conn := c\<rparr>)
        else if npn_state c = NOT_DONE_YET
          then (None, s\<lparr>temp_brigade := [], conn := c\<lparr>npn_state := NOT_USING_SPDY\<rparr>\<rparr>)
          else (None, s\<lparr>temp_brigade := [], conn := c\<rparr>))"
    using assms by (simp add: npn_detection_def)
qed

theorem npn_probe_while_undetermined_witness:
  "SpdyInputFilter_Read blocked_next_filter blocked_pump Accumulator_Read_spec
     (filter_with [] NOT_DONE_YET APR_SUCCESS) [] AP_MODE_READBYTES APR_NONBLOCK_READ 100 =
   Some (Inr (APR_EAGAIN, [], filter_with [] NOT_DONE_YET APR_SUCCESS, [])) \<and>
   APR_EAGAIN \<noteq> APR_SUCCESS \<and>
   npn_detection blocked_next_filter (filter_with [] NOT_DONE_YET APR_SUCCESS) =
     (Some APR_EAGAIN, filter_with [] NOT_DONE_YET APR_SUCCESS) \<and>
   SpdyInputFilter_Read handshake_then_eof_next_filter blocked_pump Accumulator_Read_spec
     (filter_with [] NOT_DONE_YET APR_SUCCESS) [] AP_MODE_READBYTES APR_NONBLOCK_READ 100 =
   Some (Inr (APR_EOF, [], filter_with [] USING_SPDY APR_SUCCESS, [])) \<and>
   SpdyInputFilter_Read plain_next_filter blocked_pump Accumulator_Read_spec
     (filter_with [] NOT_DONE_YET APR_SUCCESS) [] AP_MODE_READBYTES APR_NONBLOCK_READ 100 =
   Some (Inr (APR_SUCCESS, [DATA ''GET / HTTP/1.1''],
              filter_with [] NOT_USING_SPDY APR_SUCCESS, []))"
proof -
  note undetermined = npn_probe_while_undetermined
      [where s = "filter_with [] NOT_DONE_YET APR_SUCCESS" and agb = blocked_next_filter
         and rv = APR_EAGAIN and temp = "[]"
         and c = "\<lparr>npn_state = NOT_DONE_YET, aborted = False, next_filter = ()\<rparr>"
         and pump = blocked_pump and rd = Accumulator_Read_spec and brigade = "[]"
         and mode = AP_MODE_READBYTES and block = APR_NONBLOCK_READ and readbytes = 100]
  have 1: "SpdyInputFilter_Read blocked_next_filter blocked_pump Accumulator_Read_spec
     (filter_with [] NOT_DONE_YET APR_SUCCESS) [] AP_MODE_READBYTES APR_NONBLOCK_READ 100 =
   Some (Inr (APR_EAGAIN, [], filter_with [] NOT_DONE_YET APR_SUCCESS, []))"
    using undetermined [THEN conjunct1]
    by (simp add: filter_with_def blocked_next_filter_def APR_EAGAIN_def APR_SUCCESS_def)
  have 2: "APR_EAGAIN \<noteq> APR_SUCCESS"
    by (simp add: APR_EAGAIN_def APR_SUCCESS_def)
  have 3: "npn_detection blocked_next_filter (filter_with [] NOT_DONE_YET APR_SUCCESS) =
     (Some APR_EAGAIN, filter_with [] NOT_DONE_YET APR_SUCCESS)"
    using undetermined [THEN conjunct2, THEN conjunct1]
    by (simp add: filter_with_def blocked_next_filter_def APR_EAGAIN_def APR_SUCCESS_def)
  have 4: "SpdyInputFilter_Read handshake_then_eof_next_filter blocked_pump Accumulator_Read_spec
     (filter_with [] NOT_DONE_YET APR_SUCCESS) [] AP_MODE_READBYTES APR_NONBLOCK_READ 100 =
   Some (Inr (APR_EOF, [], filter_with [] USING_SPDY APR_SUCCESS, []))"
    using npn_probe_while_undetermined
      [where s = "filter_with [] NOT_DONE_YET APR_SUCCESS"
         and agb = handshake_then_eof_next_filter
         and rv = APR_EOF and temp = "[]"
         and c = "\<lparr>npn_state = USING_SPDY, aborted = False, next_filter = ()\<rparr>"
         and pump = blocked_pump and rd = Accumulator_Read_spec and brigade = "[]"
         and mode = AP_MODE_READBYTES and block = APR_NONBLOCK_READ and readbytes = 100,
       THEN conjunct1]
    by (simp add: filter_with_def handshake_then_eof_next_filter_def APR_EOF_def APR_SUCCESS_def)
  have 5: "SpdyInputFilter_Read plain_next_filter blocked_pump Accumulator_Read_spec
     (filter_with [] NOT_DONE_YET APR_SUCCESS) [] AP_MODE_READBYTES APR_NONBLOCK_READ 100 =
   Some (Inr (APR_SUCCESS, [DATA ''GET / HTTP/1.1''],
              filter_with [] NOT_USING_SPDY APR_SUCCESS, []))"
    using npn_probe_while_undetermined
      [where s = "filter_with [] NOT_DONE_YET APR_SUCCESS" and agb = plain_next_filter
         and rv = APR_SUCCESS and temp = "[DATA ''GET / HTTP/1.1'']"
         and c = "\<lparr>npn_state = NOT_DONE_YET, aborted = False, next_filter = ()\<rparr>"
         and pump = blocked_pump and rd = Accumulator_Read_spec and brigade = "[]"
         and mode = AP_MODE_READBYTES and block = APR_NONBLOCK_READ and readbytes = 100,
       THEN conjunct2, THEN conjunct2, THEN conjunct1]
    by (simp add: filter_with_def plain_next_filter_def)
  from 1 2 3 4 5 show ?thesis by blast
qed

end
